theory Spec2Isabelle
  imports Main
begin

section \<open>The mrbc command-line front end (tools/mrbc/mrbc.c)\<close>

text \<open>
  A shallow embedding of \<^verbatim>\<open>get_outfilename\<close>, \<^verbatim>\<open>parse_args\<close>, \<^verbatim>\<open>cleanup\<close>,
  \<^verbatim>\<open>usage\<close> and \<^verbatim>\<open>main\<close>.  Everything the program does to the outside world
  (text on stdout and stderr, \<^verbatim>\<open>fopen\<close>, \<^verbatim>\<open>fclose\<close>, the calls into the mruby
  library) is recorded, in program order, as a list of events; everything the outside
  world answers (whether a file can be opened, what the compiler and the serializers
  return) is a field of an environment the functions take as a parameter.

  Conventions.
  \<^item> A C string is a \<open>string\<close>; a \<^verbatim>\<open>char *\<close> that may be \<^verbatim>\<open>NULL\<close> is a
    \<open>string option\<close>, a \<^verbatim>\<open>FILE *\<close> that may be \<^verbatim>\<open>NULL\<close> a \<open>FILE option\<close>.
  \<^item> \<^verbatim>\<open>argv[0]\<close> is the parameter \<open>prog\<close>, \<^verbatim>\<open>argv[1..argc-1]\<close> the token list.
  \<^item> \<^verbatim>\<open>mrb_malloc\<close>/\<^verbatim>\<open>mrb_free\<close> of the output file name are not events: the
    buffer \<^verbatim>\<open>get_outfilename\<close> allocates always holds its result.
\<close>

subsection \<open>Constants\<close>

definition EXIT_SUCCESS :: int where
  "EXIT_SUCCESS = 0"

definition EXIT_FAILURE :: int where
  "EXIT_FAILURE = 1"

definition RITEBIN_EXT :: string where
  "RITEBIN_EXT = ''.mrb''"

definition C_EXT :: string where
  "C_EXT = ''.c''"

definition nl :: string where
  "nl = [CHR 0x0A]"

subsection \<open>Data\<close>

datatype FILE = Stdin | Stdout | Rfile string | Wfile string

text \<open>
  An \<^verbatim>\<open>mrb_value\<close> as \<^verbatim>\<open>main\<close> observes it: through \<^verbatim>\<open>mrb_undef_p\<close> and
  \<^verbatim>\<open>mrb_fixnum\<close>.
\<close>

record mrb_value =
  mrb_undef_p :: bool
  mrb_fixnum :: int

datatype event =
    Printf string
  | Fputs_stderr string
  | Show_version
  | Show_copyright
  | Fopen string string
  | Fclose FILE
  | Mrb_close
  | Load_file FILE "string option" bool
  | Dump_cfunc int bool "FILE option" string
  | Dump_binary int bool "FILE option"

text \<open>
  The environment: the answers of \<^verbatim>\<open>mrb_open\<close>, \<^verbatim>\<open>fopen\<close> (by mode),
  \<^verbatim>\<open>mrb_load_file_cxt\<close> (given the stream, \<^verbatim>\<open>c->filename\<close> and \<^verbatim>\<open>c->dump_result\<close>),
  the two serializers of \<^verbatim>\<open>mruby/dump.h\<close>, and the value of that header's constant
  \<^verbatim>\<open>MRB_DUMP_INVALID_ARGUMENT\<close>.
\<close>

record env =
  mrb_open_ok :: bool
  fopen_r_ok :: "string \<Rightarrow> bool"
  fopen_w_ok :: "string \<Rightarrow> bool"
  mrb_load_file_cxt :: "FILE \<Rightarrow> string option \<Rightarrow> bool \<Rightarrow> mrb_value"
  mrb_dump_irep_cfunc :: "int \<Rightarrow> bool \<Rightarrow> FILE option \<Rightarrow> string \<Rightarrow> int"
  mrb_dump_irep_binary :: "int \<Rightarrow> bool \<Rightarrow> FILE option \<Rightarrow> int"
  MRB_DUMP_INVALID_ARGUMENT :: int

text \<open>\<^verbatim>\<open>struct _args\<close>.\<close>

record args =
  rfp :: "FILE option"
  wfp :: "FILE option"
  filename :: "string option"
  initname :: "string option"
  ext :: string
  check_syntax :: bool
  verbose :: bool
  debug_info :: bool

text \<open>
  The state of \<^verbatim>\<open>parse_args\<close>: the structure it fills, its locals \<^verbatim>\<open>infile\<close>,
  \<^verbatim>\<open>outfile\<close> and \<^verbatim>\<open>result\<close>, and the events so far.
\<close>

record pstate =
  pargs :: args
  infile :: "string option"
  outfile :: "string option"
  result :: int
  out :: "event list"

text \<open>How one round of the \<^verbatim>\<open>for\<close> loop of \<^verbatim>\<open>parse_args\<close> ends.\<close>

datatype flow =
    Next pstate
  | Break pstate
  | Goto_exit pstate
  | Exit int "event list"

datatype parsed =
    Returned int args "event list"
  | Exited int "event list"

subsection \<open>\<^verbatim>\<open>usage\<close>\<close>

definition usage_msg :: "string list" where
  "usage_msg =
    [''switches:'',
     ''-c           check syntax only'',
     ''-o<outfile>  place the output into <outfile>'',
     ''-v           print version number, then trun on verbose mode'',
     ''-g           produce debugging information'',
     ''-B<symbol>   binary <symbol> output in C language format'',
     ''--verbose    run at verbose mode'',
     ''--version    print the version'',
     ''--copyright  print the copyright'']"

definition usage :: "string \<Rightarrow> event list" where
  "usage name =
     Printf (''Usage: '' @ name @ '' [switches] programfile'' @ nl)
     # map (\<lambda>p. Printf (''  '' @ p @ nl)) usage_msg"

subsection \<open>\<^verbatim>\<open>get_outfilename\<close>\<close>

text \<open>\<^verbatim>\<open>strrchr\<close>: the index of the last occurrence of a character, if any.\<close>

fun strrchr :: "string \<Rightarrow> char \<Rightarrow> nat option" where
  "strrchr [] c = None"
| "strrchr (x # xs) c =
     (case strrchr xs c of
        Some i \<Rightarrow> Some (Suc i)
      | None \<Rightarrow> if x = c then Some 0 else None)"

definition get_outfilename :: "string \<Rightarrow> string \<Rightarrow> string" where
  "get_outfilename inp ex =
     (if ex \<noteq> [] then
        (case strrchr inp (CHR ''.'') of
           None \<Rightarrow> inp @ ex
         | Some p \<Rightarrow> take p inp @ ex)
      else inp)"

subsection \<open>\<^verbatim>\<open>parse_args\<close>\<close>

definition args_zero :: args where
  "args_zero =
     \<lparr>rfp = None, wfp = None, filename = None, initname = None, ext = [],
      check_syntax = False, verbose = False, debug_info = False\<rparr>"

definition pstate0 :: pstate where
  "pstate0 =
     \<lparr>pargs = args_zero\<lparr>ext := RITEBIN_EXT\<rparr>, infile = None, outfile = None,
      result = EXIT_SUCCESS, out = []\<rparr>"

definition emit :: "event list \<Rightarrow> pstate \<Rightarrow> pstate" where
  "emit es s = s\<lparr>out := out s @ es\<rparr>"

text \<open>One token: the body of the \<^verbatim>\<open>for\<close> loop.\<close>

definition arg_step :: "env \<Rightarrow> string \<Rightarrow> string \<Rightarrow> pstate \<Rightarrow> flow" where
  "arg_step e prog t s =
    (if t \<noteq> [] \<and> hd t = CHR ''-'' then
       if length t = 1 then
         Break (s\<lparr>pargs := (pargs s)\<lparr>filename := Some ''-'', rfp := Some Stdin\<rparr>,
                  infile := Some ''-''\<rparr>)
       else if t ! 1 = CHR ''o'' then
         (case outfile s of
            Some f \<Rightarrow>
              Goto_exit
                ((emit [Printf (prog @ '': An output file is already specified. ('' @ f @ '')'' @ nl)] s)
                   \<lparr>result := EXIT_FAILURE\<rparr>)
          | None \<Rightarrow> Next (s\<lparr>outfile := Some (get_outfilename (drop 2 t) [])\<rparr>))
       else if t ! 1 = CHR ''B'' then
         (let s' = s\<lparr>pargs := (pargs s)\<lparr>ext := C_EXT, initname := Some (drop 2 t)\<rparr>\<rparr> in
          if drop 2 t = [] then
            Goto_exit
              ((emit [Printf (prog @ '': Function name is not specified.'' @ nl)] s')
                 \<lparr>result := EXIT_FAILURE\<rparr>)
          else Next s')
       else if t ! 1 = CHR ''c'' then
         Next (s\<lparr>pargs := (pargs s)\<lparr>check_syntax := True\<rparr>\<rparr>)
       else if t ! 1 = CHR ''v'' then
         Next ((emit (if verbose (pargs s) then [] else [Show_version]) s)
                 \<lparr>pargs := (pargs s)\<lparr>verbose := True\<rparr>\<rparr>)
       else if t ! 1 = CHR ''g'' then
         Next (s\<lparr>pargs := (pargs s)\<lparr>debug_info := True\<rparr>\<rparr>)
       else if t ! 1 = CHR ''-'' then
         if drop 2 t = ''version'' then Exit EXIT_SUCCESS (out s @ [Show_version])
         else if drop 2 t = ''verbose'' then
           Next (s\<lparr>pargs := (pargs s)\<lparr>verbose := True\<rparr>\<rparr>)
         else if drop 2 t = ''copyright'' then Exit EXIT_SUCCESS (out s @ [Show_copyright])
         else Goto_exit (s\<lparr>result := EXIT_FAILURE\<rparr>)
       else Next s
     else if rfp (pargs s) = None then
       (let s' = s\<lparr>pargs := (pargs s)\<lparr>filename := Some t\<rparr>, infile := Some t\<rparr> in
        if fopen_r_ok e t then
          Next ((emit [Fopen t ''r''] s')\<lparr>pargs := (pargs s')\<lparr>rfp := Some (Rfile t)\<rparr>\<rparr>)
        else
          Goto_exit
            (emit [Fopen t ''r'',
                   Printf (prog @ '': Cannot open program file. ('' @ t @ '')'' @ nl)] s'))
     else Next s)"

text \<open>The \<^verbatim>\<open>for\<close> loop over \<^verbatim>\<open>argv[1..]\<close>.\<close>

fun scan :: "env \<Rightarrow> string \<Rightarrow> string list \<Rightarrow> pstate \<Rightarrow> flow" where
  "scan e prog [] s = Next s"
| "scan e prog (t # ts) s =
     (case arg_step e prog t s of
        Next s' \<Rightarrow> scan e prog ts s'
      | Break s' \<Rightarrow> Break s'
      | Goto_exit s' \<Rightarrow> Goto_exit s'
      | Exit code tr \<Rightarrow> Exit code tr)"

text \<open>After the loop: the input must be known, and the output is resolved and opened.\<close>

definition resolve :: "env \<Rightarrow> string \<Rightarrow> pstate \<Rightarrow> pstate" where
  "resolve e prog s =
    (case infile s of
       None \<Rightarrow> s\<lparr>result := EXIT_FAILURE\<rparr>
     | Some inp \<Rightarrow>
         if check_syntax (pargs s) then s
         else
           (let outf =
                  (case outfile s of
                     None \<Rightarrow> if inp = ''-'' then inp else get_outfilename inp (ext (pargs s))
                   | Some f \<Rightarrow> f);
                s' = s\<lparr>outfile := Some outf\<rparr>
            in
              if outf = ''-'' then s'\<lparr>pargs := (pargs s')\<lparr>wfp := Some Stdout\<rparr>\<rparr>
              else if fopen_w_ok e outf then
                (emit [Fopen outf ''wb''] s')\<lparr>pargs := (pargs s')\<lparr>wfp := Some (Wfile outf)\<rparr>\<rparr>
              else
                (emit [Fopen outf ''wb'',
                       Printf (prog @ '': Cannot open output file. ('' @ outf @ '')'' @ nl)] s')
                  \<lparr>result := EXIT_FAILURE\<rparr>))"

definition at_exit :: "pstate \<Rightarrow> parsed" where
  "at_exit s = Returned (result s) (pargs s) (out s)"

definition parse_args :: "env \<Rightarrow> string \<Rightarrow> string list \<Rightarrow> parsed" where
  "parse_args e prog argv =
    (case scan e prog argv pstate0 of
       Next s \<Rightarrow> at_exit (resolve e prog s)
     | Break s \<Rightarrow> at_exit (resolve e prog s)
     | Goto_exit s \<Rightarrow> at_exit s
     | Exit code tr \<Rightarrow> Exited code tr)"

subsection \<open>\<^verbatim>\<open>cleanup\<close> and \<^verbatim>\<open>main\<close>\<close>

definition cleanup :: "args \<Rightarrow> event list" where
  "cleanup a =
     (case rfp a of Some f \<Rightarrow> [Fclose f] | None \<Rightarrow> [])
     @ (case wfp a of Some f \<Rightarrow> [Fclose f] | None \<Rightarrow> [])
     @ [Mrb_close]"

text \<open>
  The part of \<^verbatim>\<open>main\<close> after \<^verbatim>\<open>parse_args\<close> has returned \<open>n\<close>, the structure \<open>a\<close>
  and the events \<open>tr\<close>.  The test \<^verbatim>\<open>n == EXIT_FAILURE || args.rfp == NULL\<close> is the
  first two branches: the stream is looked at first, so that the compiler is handed the
  one that is there.  The run is the pair of the exit code and the events.
\<close>

definition compile_and_emit :: "env \<Rightarrow> string \<Rightarrow> int \<Rightarrow> args \<Rightarrow> event list \<Rightarrow> int \<times> event list" where
  "compile_and_emit e prog n a tr =
    (case rfp a of
       None \<Rightarrow> (n, tr @ cleanup a @ usage prog)
     | Some f \<Rightarrow>
         if n = EXIT_FAILURE then (n, tr @ cleanup a @ usage prog)
         else
           (let r = mrb_load_file_cxt e f (filename a) (verbose a);
                tr1 = tr @ [Load_file f (filename a) (verbose a)]
            in
              if mrb_undef_p r \<or> mrb_fixnum r < 0 then (EXIT_FAILURE, tr1 @ cleanup a)
              else if check_syntax a then
                (EXIT_SUCCESS, tr1 @ [Printf (''Syntax OK'' @ nl)] @ cleanup a)
              else
                (case initname a of
                   Some symname \<Rightarrow>
                     (let tr2 = tr1 @ [Dump_cfunc n (debug_info a) (wfp a) symname] in
                      if mrb_dump_irep_cfunc e n (debug_info a) (wfp a) symname
                           = MRB_DUMP_INVALID_ARGUMENT e
                      then
                        (EXIT_FAILURE,
                         tr2 @ [Printf (symname @ '': Invalid C language symbol name'' @ nl)])
                      else (EXIT_SUCCESS, tr2 @ cleanup a))
                 | None \<Rightarrow>
                     (EXIT_SUCCESS,
                      tr1 @ [Dump_binary n (debug_info a) (wfp a)] @ cleanup a))))"

definition main :: "env \<Rightarrow> string \<Rightarrow> string list \<Rightarrow> int \<times> event list" where
  "main e prog argv =
    (if \<not> mrb_open_ok e then
       (EXIT_FAILURE, [Fputs_stderr (''Invalid mrb_state, exiting mrbc'' @ nl)])
     else
       (case parse_args e prog argv of
          Exited code tr \<Rightarrow> (code, tr)
        | Returned n a tr \<Rightarrow> compile_and_emit e prog n a tr))"


subsection \<open>Vocabulary for the properties\<close>

text \<open>
  A switch is a token that starts with \<^verbatim>\<open>-\<close> (the test \<^verbatim>\<open>**argv == '-'\<close>); its
  switch character is its second character.  The switches \<^verbatim>\<open>parse_args\<close> has no
  \<^verbatim>\<open>case\<close> for fall to \<^verbatim>\<open>default\<close>.
\<close>

definition is_switch :: "string \<Rightarrow> bool" where
  "is_switch t = (t \<noteq> [] \<and> hd t = CHR ''-'')"

definition switch_char :: "string \<Rightarrow> char \<Rightarrow> bool" where
  "switch_char t c = (is_switch t \<and> length t \<noteq> 1 \<and> t ! 1 = c)"

definition ignored_switch :: "string \<Rightarrow> bool" where
  "ignored_switch t = (is_switch t \<and> length t \<noteq> 1 \<and> t ! 1 \<notin> set ''oBcvg-'')"

text \<open>Events by kind.\<close>

fun is_wopen :: "event \<Rightarrow> bool" where
  "is_wopen (Fopen p m) = (m = ''wb'')"
| "is_wopen _ = False"

fun is_fopen :: "event \<Rightarrow> bool" where
  "is_fopen (Fopen p m) = True"
| "is_fopen _ = False"

fun is_load :: "event \<Rightarrow> bool" where
  "is_load (Load_file f name d) = True"
| "is_load _ = False"

fun is_dump :: "event \<Rightarrow> bool" where
  "is_dump (Dump_cfunc n g w name) = True"
| "is_dump (Dump_binary n g w) = True"
| "is_dump _ = False"

fun is_release :: "event \<Rightarrow> bool" where
  "is_release (Fclose f) = True"
| "is_release Mrb_close = True"
| "is_release _ = False"

text \<open>
  What the loop of \<^verbatim>\<open>parse_args\<close> can emit: a message (each has a colon after the
  program name), a banner, or the opening of the program file.
\<close>

fun scan_event :: "event \<Rightarrow> bool" where
  "scan_event (Printf m) = (CHR '':'' \<in> set m)"
| "scan_event Show_version = True"
| "scan_event Show_copyright = True"
| "scan_event (Fopen p m) = (m = ''r'')"
| "scan_event _ = False"

fun flow_out :: "flow \<Rightarrow> event list" where
  "flow_out (Next s) = out s"
| "flow_out (Break s) = out s"
| "flow_out (Goto_exit s) = out s"
| "flow_out (Exit c tr) = tr"

fun flow_wfp :: "flow \<Rightarrow> FILE option" where
  "flow_wfp (Next s) = wfp (pargs s)"
| "flow_wfp (Break s) = wfp (pargs s)"
| "flow_wfp (Goto_exit s) = wfp (pargs s)"
| "flow_wfp (Exit c tr) = None"

fun flow_check :: "flow \<Rightarrow> bool" where
  "flow_check (Next s) = check_syntax (pargs s)"
| "flow_check (Break s) = check_syntax (pargs s)"
| "flow_check (Goto_exit s) = check_syntax (pargs s)"
| "flow_check (Exit c tr) = True"

fun events :: "parsed \<Rightarrow> event list" where
  "events (Returned n a tr) = tr"
| "events (Exited c tr) = tr"

text \<open>
  An environment to run the program in: five program files exist, every output file can
  be created, \<^verbatim>\<open>broken.rb\<close> does not compile, writing to \<^verbatim>\<open>/dev/full\<close> fails with
  \<^verbatim>\<open>MRB_DUMP_WRITE_FAULT\<close> (\<open>-2\<close>), and a symbol that starts with a digit is
  rejected with \<^verbatim>\<open>MRB_DUMP_INVALID_ARGUMENT\<close> (\<open>-7\<close>).
\<close>

definition sample_env :: env where
  "sample_env =
     \<lparr>mrb_open_ok = True,
      fopen_r_ok = (\<lambda>p. p \<in> set [''foo.rb'', ''foo'', ''hello.rb'', ''broken.rb'', ''a.b/foo'']),
      fopen_w_ok = (\<lambda>p. True),
      mrb_load_file_cxt =
        (\<lambda>f name d. \<lparr>mrb_undef_p = (name = Some ''broken.rb''), mrb_fixnum = 0\<rparr>),
      mrb_dump_irep_cfunc =
        (\<lambda>n g w name. if name \<noteq> [] \<and> hd name \<in> set ''0123456789'' then - 7
                       else if w = Some (Wfile ''/dev/full'') then - 2 else 0),
      mrb_dump_irep_binary = (\<lambda>n g w. if w = Some (Wfile ''/dev/full'') then - 2 else 0),
      MRB_DUMP_INVALID_ARGUMENT = - 7\<rparr>"

text \<open>
  The derivation of the output name as the specification words it: the extension is
  looked for in the file name, that is, after the last \<^verbatim>\<open>/\<close> of the path.
\<close>

definition spec_outfilename :: "string \<Rightarrow> string \<Rightarrow> string" where
  "spec_outfilename p x =
     (let k = (case strrchr p (CHR ''/'') of None \<Rightarrow> 0 | Some i \<Rightarrow> Suc i)
      in take k p @ get_outfilename (drop k p) x)"

section \<open>Properties\<close>

subsection \<open>One token at a time\<close>

lemma lone_dash: "is_switch t \<Longrightarrow> length t = 1 \<Longrightarrow> t = ''-''"
  by (cases t) (auto simp: is_switch_def)

lemma token_cases [case_names nonswitch dash o B c v g long other]:
  obtains "\<not> is_switch t" | "t = ''-''"
  | "switch_char t (CHR ''o'')" | "switch_char t (CHR ''B'')" | "switch_char t (CHR ''c'')"
  | "switch_char t (CHR ''v'')" | "switch_char t (CHR ''g'')" | "switch_char t (CHR ''-'')"
  | "ignored_switch t"
  using lone_dash [of t] by (auto simp: switch_char_def ignored_switch_def)

lemma arg_step_nonswitch:
  "\<not> is_switch t \<Longrightarrow>
   arg_step e prog t s =
     (if rfp (pargs s) = None then
        if fopen_r_ok e t then
          Next (s\<lparr>pargs := (pargs s)\<lparr>filename := Some t, rfp := Some (Rfile t)\<rparr>,
                  infile := Some t, out := out s @ [Fopen t ''r'']\<rparr>)
        else
          Goto_exit (s\<lparr>pargs := (pargs s)\<lparr>filename := Some t\<rparr>, infile := Some t,
                       out := out s @ [Fopen t ''r'',
                         Printf (prog @ '': Cannot open program file. ('' @ t @ '')'' @ nl)]\<rparr>)
      else Next s)"
  unfolding arg_step_def is_switch_def [symmetric] by (simp add: emit_def Let_def)

lemma arg_step_dash:
  "arg_step e prog ''-'' s =
     Break (s\<lparr>pargs := (pargs s)\<lparr>filename := Some ''-'', rfp := Some Stdin\<rparr>,
              infile := Some ''-''\<rparr>)"
  by (simp add: arg_step_def)

lemma arg_step_o:
  "switch_char t (CHR ''o'') \<Longrightarrow>
   arg_step e prog t s =
     (case outfile s of
        Some f \<Rightarrow>
          Goto_exit (s\<lparr>out := out s @
              [Printf (prog @ '': An output file is already specified. ('' @ f @ '')'' @ nl)],
            result := EXIT_FAILURE\<rparr>)
      | None \<Rightarrow> Next (s\<lparr>outfile := Some (drop 2 t)\<rparr>))"
  by (simp add: arg_step_def switch_char_def is_switch_def emit_def get_outfilename_def
      split: option.split)

lemma arg_step_B:
  "switch_char t (CHR ''B'') \<Longrightarrow>
   arg_step e prog t s =
     (if drop 2 t = [] then
        Goto_exit (s\<lparr>pargs := (pargs s)\<lparr>ext := C_EXT, initname := Some (drop 2 t)\<rparr>,
          out := out s @ [Printf (prog @ '': Function name is not specified.'' @ nl)],
          result := EXIT_FAILURE\<rparr>)
      else Next (s\<lparr>pargs := (pargs s)\<lparr>ext := C_EXT, initname := Some (drop 2 t)\<rparr>\<rparr>))"
  by (simp add: arg_step_def switch_char_def is_switch_def emit_def Let_def)

lemma arg_step_c:
  "switch_char t (CHR ''c'') \<Longrightarrow>
   arg_step e prog t s = Next (s\<lparr>pargs := (pargs s)\<lparr>check_syntax := True\<rparr>\<rparr>)"
  by (simp add: arg_step_def switch_char_def is_switch_def)

lemma arg_step_v:
  "switch_char t (CHR ''v'') \<Longrightarrow>
   arg_step e prog t s =
     Next (s\<lparr>pargs := (pargs s)\<lparr>verbose := True\<rparr>,
             out := out s @ (if verbose (pargs s) then [] else [Show_version])\<rparr>)"
  by (simp add: arg_step_def switch_char_def is_switch_def emit_def)

lemma arg_step_g:
  "switch_char t (CHR ''g'') \<Longrightarrow>
   arg_step e prog t s = Next (s\<lparr>pargs := (pargs s)\<lparr>debug_info := True\<rparr>\<rparr>)"
  by (simp add: arg_step_def switch_char_def is_switch_def)

lemma arg_step_long:
  "switch_char t (CHR ''-'') \<Longrightarrow>
   arg_step e prog t s =
     (if drop 2 t = ''version'' then Exit EXIT_SUCCESS (out s @ [Show_version])
      else if drop 2 t = ''verbose'' then Next (s\<lparr>pargs := (pargs s)\<lparr>verbose := True\<rparr>\<rparr>)
      else if drop 2 t = ''copyright'' then Exit EXIT_SUCCESS (out s @ [Show_copyright])
      else Goto_exit (s\<lparr>result := EXIT_FAILURE\<rparr>))"
  by (simp add: arg_step_def switch_char_def is_switch_def)

lemma arg_step_ignored: "ignored_switch t \<Longrightarrow> arg_step e prog t s = Next s"
  by (simp add: arg_step_def ignored_switch_def is_switch_def)

lemmas arg_step_cases =
  arg_step_nonswitch arg_step_dash arg_step_o arg_step_B arg_step_c arg_step_v arg_step_g
  arg_step_long arg_step_ignored

subsection \<open>The loop\<close>

lemma scan_append:
  "scan e prog (xs @ ys) s =
     (case scan e prog xs s of
        Next s' \<Rightarrow> scan e prog ys s'
      | Break s' \<Rightarrow> Break s'
      | Goto_exit s' \<Rightarrow> Goto_exit s'
      | Exit c tr \<Rightarrow> Exit c tr)"
  by (induction xs arbitrary: s) (auto split: flow.splits)

lemma scan_induct_flow:
  assumes "Q (Next s)"
    and "\<And>t s. t \<in> set ts \<Longrightarrow> Q (Next s) \<Longrightarrow> Q (arg_step e prog t s)"
  shows "Q (scan e prog ts s)"
  using assms
proof (induction ts arbitrary: s)
  case Nil
  then show ?case by simp
next
  case (Cons t ts)
  have step: "Q (arg_step e prog t s)"
    using Cons.prems by simp
  show ?case
  proof (cases "arg_step e prog t s")
    case (Next s')
    with step have "Q (Next s')" by simp
    then have "Q (scan e prog ts s')"
      using Cons.prems(2) by (intro Cons.IH) simp_all
    with Next show ?thesis by simp
  qed (use step in simp_all)
qed

lemma scan_Next_invariant:
  assumes "scan e prog ts s = Next s'" and "P s"
    and "\<And>t s s'. t \<in> set ts \<Longrightarrow> P s \<Longrightarrow> arg_step e prog t s = Next s' \<Longrightarrow> P s'"
  shows "P s'"
proof -
  have "\<forall>u. scan e prog ts s = Next u \<longrightarrow> P u"
    by (rule scan_induct_flow [where Q = "\<lambda>fl. \<forall>u. fl = Next u \<longrightarrow> P u"])
       (use assms(2,3) in auto)
  with assms(1) show ?thesis by simp
qed

lemma scan_drop_when:
  assumes "\<And>s. P s \<Longrightarrow> arg_step e prog t s = Next s"
    and "\<And>u s s'. P s \<Longrightarrow> arg_step e prog u s = Next s' \<Longrightarrow> P s'"
    and "P s"
  shows "scan e prog (pre @ t # rest) s = scan e prog (pre @ rest) s"
  using assms(3)
proof (induction pre arbitrary: s)
  case Nil
  then show ?case by (simp add: assms(1))
next
  case (Cons u pre)
  show ?case
  proof (cases "arg_step e prog u s")
    case (Next s')
    with Cons.prems have "P s'" by (auto intro: assms(2))
    with Next Cons.IH show ?thesis by simp
  qed simp_all
qed

subsection \<open>What a round of the loop keeps\<close>

lemma arg_step_keeps_rfp:
  "arg_step e prog t s = Next s' \<Longrightarrow> rfp (pargs s) \<noteq> None \<Longrightarrow> rfp (pargs s') \<noteq> None"
  by (cases t rule: token_cases)
     (auto simp: arg_step_cases split: option.splits if_splits)

lemma arg_step_binds_rfp:
  "arg_step e prog t s = Next s' \<Longrightarrow> \<not> is_switch t \<Longrightarrow> rfp (pargs s') \<noteq> None"
  by (auto simp: arg_step_nonswitch split: if_splits)

lemma arg_step_flags:
  assumes "arg_step e prog t s = Next s'"
  shows "outfile s' = None \<longleftrightarrow> outfile s = None \<and> \<not> switch_char t (CHR ''o'')"
    and "check_syntax (pargs s') \<longleftrightarrow> check_syntax (pargs s) \<or> switch_char t (CHR ''c'')"
    and "initname (pargs s') \<noteq> None \<longleftrightarrow>
           initname (pargs s) \<noteq> None \<or> switch_char t (CHR ''B'')"
  using assms
  by (cases t rule: token_cases;
      auto simp: arg_step_cases switch_char_def ignored_switch_def
           split: option.splits if_splits)+

lemma arg_step_ext:
  assumes "arg_step e prog t s = Next s'"
    and "ext (pargs s) = (if initname (pargs s) = None then RITEBIN_EXT else C_EXT)"
  shows "ext (pargs s') = (if initname (pargs s') = None then RITEBIN_EXT else C_EXT)"
  using assms
  by (cases t rule: token_cases)
     (auto simp: arg_step_cases split: option.splits if_splits)

lemma arg_step_result:
  "arg_step e prog t s = Next s' \<Longrightarrow> result s = EXIT_SUCCESS \<Longrightarrow> result s' = EXIT_SUCCESS"
  by (cases t rule: token_cases)
     (auto simp: arg_step_cases split: option.splits if_splits)

lemma arg_step_wfp:
  "wfp (pargs s) = None \<Longrightarrow> flow_wfp (arg_step e prog t s) = None"
  by (cases t rule: token_cases)
     (auto simp: arg_step_cases split: option.splits if_splits)

lemma arg_step_events:
  "list_all scan_event (out s) \<Longrightarrow> list_all scan_event (flow_out (arg_step e prog t s))"
  by (cases t rule: token_cases)
     (auto simp: arg_step_cases split: option.splits if_splits)

lemma arg_step_switch_events:
  "is_switch t \<Longrightarrow> \<not> list_ex is_fopen (out s) \<Longrightarrow>
   \<not> list_ex is_fopen (flow_out (arg_step e prog t s))"
  by (cases t rule: token_cases)
     (auto simp: arg_step_cases split: option.splits if_splits)

subsection \<open>Dropping a token\<close>

lemmas run_defs =
  main_def parse_args_def compile_and_emit_def resolve_def at_exit_def cleanup_def
  arg_step_def emit_def pstate0_def args_zero_def get_outfilename_def sample_env_def
  EXIT_SUCCESS_def EXIT_FAILURE_def RITEBIN_EXT_def C_EXT_def nl_def Let_def

lemma scan_drop_ignored:
  "ignored_switch t \<Longrightarrow> scan e prog (pre @ t # rest) s = scan e prog (pre @ rest) s"
  by (rule scan_drop_when [where P = "\<lambda>_. True"]) (simp_all add: arg_step_ignored)

lemma scan_drop_second_input:
  assumes "rfp (pargs s) \<noteq> None" and "\<not> is_switch t"
  shows "scan e prog (pre @ t # rest) s = scan e prog (pre @ rest) s"
  by (rule scan_drop_when [where P = "\<lambda>s. rfp (pargs s) \<noteq> None"])
     (use assms in \<open>auto simp: arg_step_nonswitch dest: arg_step_keeps_rfp\<close>)

lemma scan_drop_later_input:
  assumes "\<exists>x\<in>set pre. \<not> is_switch x" and "\<not> is_switch t"
  shows "scan e prog (pre @ t # rest) s = scan e prog (pre @ rest) s"
  using assms(1)
proof (induction pre arbitrary: s)
  case Nil
  then show ?case by simp
next
  case (Cons u pre)
  show ?case
  proof (cases "arg_step e prog u s")
    case (Next s')
    show ?thesis
    proof (cases "is_switch u")
      case True
      with Cons.prems have "\<exists>x\<in>set pre. \<not> is_switch x" by simp
      with Next Cons.IH show ?thesis by simp
    next
      case False
      with Next have "rfp (pargs s') \<noteq> None" by (rule arg_step_binds_rfp)
      with Next assms(2) show ?thesis by (simp add: scan_drop_second_input)
    qed
  qed simp_all
qed

lemma scan_stops_at_dash:
  "scan e prog (pre @ ''-'' # rest) s = scan e prog (pre @ [''-'']) s"
  by (induction pre arbitrary: s) (auto simp: arg_step_dash split: flow.splits)

lemma main_cong:
  "parse_args e prog xs = parse_args e prog ys \<Longrightarrow> main e prog xs = main e prog ys"
  by (simp add: main_def)

lemma parse_args_cong:
  "scan e prog xs pstate0 = scan e prog ys pstate0 \<Longrightarrow>
   parse_args e prog xs = parse_args e prog ys"
  by (simp add: parse_args_def)

subsection \<open>What the loop establishes\<close>

lemma scan_Cons_Next:
  "scan e prog (t # ts) s = Next s' \<Longrightarrow>
   \<exists>s1. arg_step e prog t s = Next s1 \<and> scan e prog ts s1 = Next s'"
  by (auto split: flow.splits)

lemma scan_flags:
  assumes "scan e prog ts s0 = Next s"
  shows "(outfile s = None \<longleftrightarrow>
            outfile s0 = None \<and> (\<forall>t\<in>set ts. \<not> switch_char t (CHR ''o''))) \<and>
         (check_syntax (pargs s) \<longleftrightarrow>
            check_syntax (pargs s0) \<or> (\<exists>t\<in>set ts. switch_char t (CHR ''c''))) \<and>
         (initname (pargs s) \<noteq> None \<longleftrightarrow>
            initname (pargs s0) \<noteq> None \<or> (\<exists>t\<in>set ts. switch_char t (CHR ''B'')))"
  using assms
proof (induction ts arbitrary: s0)
  case Nil
  then show ?case by simp
next
  case (Cons t ts)
  then obtain s1 where s1: "arg_step e prog t s0 = Next s1" "scan e prog ts s1 = Next s"
    by (blast dest: scan_Cons_Next)
  from Cons.IH [OF s1(2)] arg_step_flags [OF s1(1)] show ?case
    by (simp only: list.set ball_simps bex_simps) blast
qed

lemma scan_wfp: "flow_wfp (scan e prog ts pstate0) = None"
  by (rule scan_induct_flow [where Q = "\<lambda>fl. flow_wfp fl = None"])
     (simp_all add: pstate0_def args_zero_def arg_step_wfp)

lemma scan_events: "list_all scan_event (flow_out (scan e prog ts pstate0))"
  by (rule scan_induct_flow [where Q = "\<lambda>fl. list_all scan_event (flow_out fl)"])
     (simp_all add: pstate0_def arg_step_events)

lemma scan_switch_events:
  assumes "\<forall>t\<in>set ts. is_switch t"
  shows "\<not> list_ex is_fopen (flow_out (scan e prog ts pstate0))"
  by (rule scan_induct_flow [where Q = "\<lambda>fl. \<not> list_ex is_fopen (flow_out fl)"])
     (use assms in \<open>simp_all add: pstate0_def arg_step_switch_events\<close>)

lemma scan_ext:
  assumes "scan e prog ts pstate0 = Next s"
  shows "ext (pargs s) = (if initname (pargs s) = None then RITEBIN_EXT else C_EXT)"
  by (rule scan_Next_invariant [OF assms, where
        P = "\<lambda>s. ext (pargs s) = (if initname (pargs s) = None then RITEBIN_EXT else C_EXT)"])
     (simp_all add: pstate0_def args_zero_def arg_step_ext)

lemma scan_result:
  assumes "scan e prog ts pstate0 = Next s"
  shows "result s = EXIT_SUCCESS"
  by (rule scan_Next_invariant [OF assms, where P = "\<lambda>s. result s = EXIT_SUCCESS"])
     (simp_all add: pstate0_def arg_step_result)

subsection \<open>Events by kind\<close>

lemma scan_event_kinds:
  "scan_event ev \<Longrightarrow> \<not> is_wopen ev \<and> \<not> is_load ev \<and> \<not> is_dump ev \<and> \<not> is_release ev"
  by (cases ev) simp_all

lemma scan_events_kinds:
  assumes "list_all scan_event tr"
  shows "\<not> list_ex is_wopen tr" and "\<not> list_ex is_load tr" and "\<not> list_ex is_dump tr"
    and "\<not> list_ex is_release tr" and "filter is_wopen tr = []"
    and "Printf (''Syntax OK'' @ nl) \<notin> set tr"
  using assms
  by (auto simp: list_all_iff list_ex_iff filter_empty_conv nl_def dest: scan_event_kinds)

lemma cleanup_kinds:
  "\<not> list_ex is_wopen (cleanup a)" "\<not> list_ex is_dump (cleanup a)"
  "\<not> list_ex is_load (cleanup a)" "\<not> list_ex is_fopen (cleanup a)"
  "Printf m \<notin> set (cleanup a)"
  by (simp_all add: cleanup_def split: option.split)

lemma usage_kinds:
  "\<not> list_ex is_wopen (usage prog)" "\<not> list_ex is_dump (usage prog)"
  "\<not> list_ex is_load (usage prog)" "\<not> list_ex is_fopen (usage prog)"
  by (simp_all add: usage_def list_ex_iff image_iff)

lemma compile_and_emit_failure:
  "compile_and_emit e prog EXIT_FAILURE a tr = (EXIT_FAILURE, tr @ cleanup a @ usage prog)"
  by (simp add: compile_and_emit_def split: option.split)

subsection \<open>The derived output name\<close>

lemma strrchr_None_iff: "strrchr xs c = None \<longleftrightarrow> c \<notin> set xs"
  by (induction xs) (auto split: option.splits)

lemma strrchr_last: "c \<notin> set suf \<Longrightarrow> strrchr (stem @ c # suf) c = Some (length stem)"
proof (induction stem)
  case Nil
  then have "strrchr suf c = None" by (simp add: strrchr_None_iff)
  then show ?case by simp
next
  case (Cons x stem)
  then show ?case by simp
qed

lemma get_outfilename_no_dot:
  "x \<noteq> [] \<Longrightarrow> CHR ''.'' \<notin> set p \<Longrightarrow> get_outfilename p x = p @ x"
  by (simp add: get_outfilename_def strrchr_None_iff [THEN iffD2])

lemma get_outfilename_last_dot:
  "x \<noteq> [] \<Longrightarrow> CHR ''.'' \<notin> set suf \<Longrightarrow> get_outfilename (stem @ CHR ''.'' # suf) x = stem @ x"
  by (simp add: get_outfilename_def strrchr_last)

lemma get_outfilename_length:
  "x \<noteq> [] \<Longrightarrow> length x \<le> length (get_outfilename p x)"
  by (simp add: get_outfilename_def split: option.split)

lemma derived_not_stdout:
  "x = RITEBIN_EXT \<or> x = C_EXT \<Longrightarrow> get_outfilename p x \<noteq> ''-''"
proof
  assume x: "x = RITEBIN_EXT \<or> x = C_EXT" and eq: "get_outfilename p x = ''-''"
  from x have "x \<noteq> []" and "2 \<le> length x"
    by (auto simp: RITEBIN_EXT_def C_EXT_def)
  with get_outfilename_length [of x p] eq show False by simp
qed

subsection \<open>After the loop\<close>

lemma parse_args_after_prefix:
  assumes "scan e prog pre pstate0 = Next s"
  shows "parse_args e prog (pre @ t # rest) =
     (case scan e prog (t # rest) s of
        Next s' \<Rightarrow> at_exit (resolve e prog s')
      | Break s' \<Rightarrow> at_exit (resolve e prog s')
      | Goto_exit s' \<Rightarrow> at_exit s'
      | Exit c tr \<Rightarrow> Exited c tr)"
  using assms by (simp add: parse_args_def scan_append)

lemma main_trace_failure:
  assumes "parse_args e prog argv = Returned EXIT_FAILURE a tr"
  shows "fst (main e prog argv) = EXIT_FAILURE"
    and "\<not> list_ex is_wopen tr \<Longrightarrow> \<not> list_ex is_wopen (snd (main e prog argv))"
  using assms
  by (simp_all add: main_def compile_and_emit_failure cleanup_kinds usage_kinds)

subsection \<open>Syntax check\<close>

lemma arg_step_check:
  "check_syntax (pargs s) \<Longrightarrow> flow_check (arg_step e prog t s)"
  by (cases t rule: token_cases)
     (auto simp: arg_step_cases split: option.splits if_splits)

lemma scan_check:
  "check_syntax (pargs s) \<Longrightarrow> flow_check (scan e prog ts s)"
  by (rule scan_induct_flow [where Q = flow_check]) (simp_all add: arg_step_check)

lemma resolve_keeps_check:
  "check_syntax (pargs s) \<Longrightarrow> check_syntax (pargs (resolve e prog s))"
  by (simp add: resolve_def split: option.split)

text \<open>
  \<^verbatim>\<open>check_syntax\<close> is set in what \<^verbatim>\<open>parse_args\<close> returns as soon as the loop has
  reached a \<^verbatim>\<open>-c\<close> switch, whatever follows it.
\<close>

lemma check_syntax_set_when_reached:
  assumes "scan e prog pre pstate0 = Next s" and "switch_char t (CHR ''c'')"
    and "parse_args e prog (pre @ t # rest) = Returned n a tr"
  shows "check_syntax a"
proof -
  let ?s = "s\<lparr>pargs := (pargs s)\<lparr>check_syntax := True\<rparr>\<rparr>"
  have "flow_check (scan e prog rest ?s)"
    by (rule scan_check) simp
  moreover have "scan e prog (t # rest) s = scan e prog rest ?s"
    using assms(2) by (simp add: arg_step_c)
  ultimately show ?thesis
    using assms(3)
    by (cases "scan e prog rest ?s")
       (auto simp: parse_args_after_prefix [OF assms(1)] at_exit_def resolve_keeps_check)
qed

lemma resolve_check_syntax:
  "check_syntax (pargs (resolve e prog s)) \<Longrightarrow>
   pargs (resolve e prog s) = pargs s \<and> out (resolve e prog s) = out s"
  by (auto simp: resolve_def Let_def emit_def split: option.splits if_splits)

lemma parse_check_syntax:
  assumes "parse_args e prog argv = Returned n a tr" and "check_syntax a"
  shows "wfp a = None \<and> list_all scan_event tr"
proof (cases "scan e prog argv pstate0")
  case (Next s)
  with assms have "a = pargs (resolve e prog s)" "tr = out (resolve e prog s)"
    by (simp_all add: parse_args_def at_exit_def)
  with assms(2) resolve_check_syntax [of e prog s] have "a = pargs s" "tr = out s"
    by simp_all
  with scan_wfp [of e prog argv] scan_events [of e prog argv] Next show ?thesis
    by simp
next
  case (Break s)
  with assms have "a = pargs (resolve e prog s)" "tr = out (resolve e prog s)"
    by (simp_all add: parse_args_def at_exit_def)
  with assms(2) resolve_check_syntax [of e prog s] have "a = pargs s" "tr = out s"
    by simp_all
  with scan_wfp [of e prog argv] scan_events [of e prog argv] Break show ?thesis
    by simp
next
  case (Goto_exit s)
  with assms have "a = pargs s" "tr = out s"
    by (simp_all add: parse_args_def at_exit_def)
  with scan_wfp [of e prog argv] scan_events [of e prog argv] Goto_exit show ?thesis
    by simp
next
  case (Exit c tr')
  with assms show ?thesis
    by (simp add: parse_args_def)
qed

lemma compile_and_emit_check_syntax:
  assumes "check_syntax a" and "list_all scan_event tr"
  shows "\<not> list_ex is_wopen (snd (compile_and_emit e prog n a tr))"
    and "\<not> list_ex is_dump (snd (compile_and_emit e prog n a tr))"
  using assms
  by (simp_all add: compile_and_emit_def Let_def scan_events_kinds cleanup_kinds usage_kinds
      split: option.split)

subsection \<open>Opening the output\<close>

lemma resolve_derives:
  assumes "infile s = Some p" and "p \<noteq> ''-''" and "outfile s = None"
    and "\<not> check_syntax (pargs s)" and "get_outfilename p (ext (pargs s)) = d" and "d \<noteq> ''-''"
  shows "resolve e prog s =
     (if fopen_w_ok e d then
        s\<lparr>outfile := Some d, out := out s @ [Fopen d ''wb''],
          pargs := (pargs s)\<lparr>wfp := Some (Wfile d)\<rparr>\<rparr>
      else
        s\<lparr>outfile := Some d,
          out := out s @ [Fopen d ''wb'',
                          Printf (prog @ '': Cannot open output file. ('' @ d @ '')'' @ nl)],
          result := EXIT_FAILURE\<rparr>)"
  using assms by (simp add: resolve_def Let_def emit_def)

subsection \<open>Releases\<close>

lemma resolve_release:
  "\<not> list_ex is_release (out s) \<Longrightarrow> \<not> list_ex is_release (out (resolve e prog s))"
  by (simp add: resolve_def Let_def emit_def split: option.split)

lemma parse_args_release: "\<not> list_ex is_release (events (parse_args e prog argv))"
proof -
  have "\<not> list_ex is_release (flow_out (scan e prog argv pstate0))"
    using scan_events [of e prog argv] by (rule scan_events_kinds)
  then show ?thesis
    by (cases "scan e prog argv pstate0")
       (simp_all add: parse_args_def at_exit_def resolve_release)
qed

subsection \<open>The program file, once bound\<close>

lemma scan_binds_rfp:
  assumes "scan e prog ts s0 = Next s"
    and "rfp (pargs s0) \<noteq> None \<or> (\<exists>x\<in>set ts. \<not> is_switch x)"
  shows "rfp (pargs s) \<noteq> None"
  using assms
proof (induction ts arbitrary: s0)
  case Nil
  then show ?case by simp
next
  case (Cons t ts)
  then obtain s1 where s1: "arg_step e prog t s0 = Next s1" "scan e prog ts s1 = Next s"
    by (blast dest: scan_Cons_Next)
  have "rfp (pargs s1) \<noteq> None \<or> (\<exists>x\<in>set ts. \<not> is_switch x)"
    using Cons.prems(2) arg_step_keeps_rfp [OF s1(1)] arg_step_binds_rfp [OF s1(1)]
    by auto
  with s1(2) show ?case
    by (rule Cons.IH)
qed

lemma arg_step_switch_rfp:
  "arg_step e prog t s = Next s' \<Longrightarrow> is_switch t \<Longrightarrow> rfp (pargs s') = rfp (pargs s)"
  by (cases t rule: token_cases)
     (auto simp: arg_step_cases split: option.splits if_splits)

lemma arg_step_opened:
  assumes "arg_step e prog t s = Next s'"
    and "rfp (pargs s) \<noteq> None \<longrightarrow> list_ex is_fopen (out s)"
  shows "rfp (pargs s') \<noteq> None \<longrightarrow> list_ex is_fopen (out s')"
  using assms
  by (cases t rule: token_cases)
     (auto simp: arg_step_cases split: option.splits if_splits)

lemma scan_opened:
  assumes "scan e prog ts pstate0 = Next s" and "\<exists>x\<in>set ts. \<not> is_switch x"
  shows "list_ex is_fopen (out s)"
proof -
  have "rfp (pargs s) \<noteq> None \<longrightarrow> list_ex is_fopen (out s)"
    by (rule scan_Next_invariant [OF assms(1), where
          P = "\<lambda>s. rfp (pargs s) \<noteq> None \<longrightarrow> list_ex is_fopen (out s)"])
       (simp_all add: pstate0_def args_zero_def arg_step_opened)
  moreover have "rfp (pargs s) \<noteq> None"
    using assms by (intro scan_binds_rfp [of e prog ts pstate0]) simp_all
  ultimately show ?thesis by simp
qed

text \<open>
  Once a program file is bound, the events of the loop hold one \<^verbatim>\<open>fopen\<close>, and it stays
  the only one.
\<close>

lemma arg_step_one_fopen:
  assumes "arg_step e prog t s = Next s'"
    and "rfp (pargs s) \<noteq> None \<and> filter is_fopen (out s) = [Fopen p ''r'']"
  shows "rfp (pargs s') \<noteq> None \<and> filter is_fopen (out s') = [Fopen p ''r'']"
  using assms
  by (cases t rule: token_cases)
     (auto simp: arg_step_cases split: option.splits if_splits)

lemma scan_one_fopen:
  assumes "scan e prog ts s0 = Next s"
    and "rfp (pargs s0) \<noteq> None \<and> filter is_fopen (out s0) = [Fopen p ''r'']"
  shows "filter is_fopen (out s) = [Fopen p ''r'']"
proof -
  have "rfp (pargs s) \<noteq> None \<and> filter is_fopen (out s) = [Fopen p ''r'']"
    by (rule scan_Next_invariant [OF assms(1), where
          P = "\<lambda>s. rfp (pargs s) \<noteq> None \<and> filter is_fopen (out s) = [Fopen p ''r'']"])
       (use assms(2) in \<open>auto dest: arg_step_one_fopen\<close>)
  then show ?thesis by simp
qed

lemma scan_switches_unbound:
  assumes "scan e prog ts pstate0 = Next s" and "\<forall>u\<in>set ts. is_switch u"
  shows "rfp (pargs s) = None \<and> filter is_fopen (out s) = []"
proof -
  have "rfp (pargs s) = None"
    by (rule scan_Next_invariant [OF assms(1), where P = "\<lambda>s. rfp (pargs s) = None"])
       (use assms(2) in \<open>auto simp: pstate0_def args_zero_def dest: arg_step_switch_rfp\<close>)
  moreover have "\<not> list_ex is_fopen (out s)"
    using scan_switch_events [OF assms(2), of e prog] assms(1) by simp
  ultimately show ?thesis
    by (simp add: list_ex_iff filter_empty_conv)
qed

lemma scan_first_program_file:
  assumes "scan e prog (sw @ p # later) pstate0 = Next s"
    and "\<forall>u\<in>set sw. is_switch u" and "\<not> is_switch p"
  shows "filter is_fopen (out s) = [Fopen p ''r'']"
proof -
  from assms(1) obtain s1 where s1: "scan e prog sw pstate0 = Next s1"
      and r: "scan e prog (p # later) s1 = Next s"
    by (auto simp: scan_append split: flow.splits)
  from r obtain s2 where s2: "arg_step e prog p s1 = Next s2" "scan e prog later s2 = Next s"
    by (blast dest: scan_Cons_Next)
  from scan_switches_unbound [OF s1 assms(2)]
  have u: "rfp (pargs s1) = None" "filter is_fopen (out s1) = []"
    by simp_all
  from s2(1) u assms(3)
  have "rfp (pargs s2) \<noteq> None \<and> filter is_fopen (out s2) = [Fopen p ''r'']"
    by (auto simp: arg_step_nonswitch split: if_splits)
  with s2(2) show ?thesis
    by (rule scan_one_fopen)
qed

lemma scan_after_prefix:
  "scan e prog pre pstate0 = Next s \<Longrightarrow>
   scan e prog (pre @ t # rest) pstate0 =
     (case arg_step e prog t s of
        Next s' \<Rightarrow> scan e prog rest s'
      | Break s' \<Rightarrow> Break s'
      | Goto_exit s' \<Rightarrow> Goto_exit s'
      | Exit c tr \<Rightarrow> Exit c tr)"
  by (simp add: scan_append)

section \<open>The claims\<close>

subsection \<open>Claim C1: a program file that cannot be opened\<close>

text \<open>
  Claim C1 against the code.  When the loop reaches a token that is not a switch while no
  input is bound, and the file cannot be opened, the program does print ``Cannot open
  program file'' with the path, and the usage text; but \<^verbatim>\<open>parse_args\<close> jumps to its exit
  with \<^verbatim>\<open>result\<close> still \<^verbatim>\<open>EXIT_SUCCESS\<close>, and \<^verbatim>\<open>main\<close> returns that value: the exit
  code is 0, where the claim has a non-zero one.
\<close>

theorem unopenable_program_file_exits_zero:
  assumes "scan e prog pre pstate0 = Next s" and "rfp (pargs s) = None"
    and "\<not> is_switch p" and "\<not> fopen_r_ok e p" and "mrb_open_ok e"
  shows "main e prog (pre @ p # rest) =
           (EXIT_SUCCESS,
            out s @
            [Fopen p ''r'', Printf (prog @ '': Cannot open program file. ('' @ p @ '')'' @ nl),
             Mrb_close] @ usage prog) \<and>
         EXIT_SUCCESS = 0"
proof -
  have "result s = EXIT_SUCCESS"
    using assms(1) by (rule scan_result)
  moreover have "wfp (pargs s) = None"
    using scan_wfp [of e prog pre] assms(1) by simp
  ultimately have "parse_args e prog (pre @ p # rest) =
      Returned EXIT_SUCCESS ((pargs s)\<lparr>filename := Some p\<rparr>)
        (out s @ [Fopen p ''r'',
                  Printf (prog @ '': Cannot open program file. ('' @ p @ '')'' @ nl)])"
    using assms(2-4)
    by (simp add: parse_args_after_prefix [OF assms(1)] arg_step_nonswitch at_exit_def)
  then show ?thesis
    using assms(2,5) \<open>wfp (pargs s) = None\<close>
    by (simp add: main_def compile_and_emit_def cleanup_def EXIT_SUCCESS_def)
qed

text \<open>The command line \<^verbatim>\<open>mrbc missing.rb\<close>.\<close>

theorem unopenable_program_file_exits_zero_witness:
  "scan sample_env ''mrbc'' [] pstate0 = Next pstate0 \<and> rfp (pargs pstate0) = None \<and>
   \<not> is_switch ''missing.rb'' \<and> \<not> fopen_r_ok sample_env ''missing.rb'' \<and>
   mrb_open_ok sample_env \<and>
   main sample_env ''mrbc'' ([] @ ''missing.rb'' # []) =
     (0, [Fopen ''missing.rb'' ''r'',
          Printf (''mrbc: Cannot open program file. (missing.rb)'' @ nl), Mrb_close]
         @ usage ''mrbc'')"
proof -
  have h1: "scan sample_env ''mrbc'' [] pstate0 = Next pstate0"
    by simp
  have h2: "rfp (pargs pstate0) = None"
    by (simp add: pstate0_def args_zero_def)
  have h3: "\<not> is_switch ''missing.rb''"
    by (simp add: is_switch_def)
  have h4: "\<not> fopen_r_ok sample_env ''missing.rb''" and h5: "mrb_open_ok sample_env"
    by (simp_all add: sample_env_def)
  show ?thesis
    using h1 h2 h3 h4 h5 unopenable_program_file_exits_zero [OF h1 h2 h3 h4 h5, of "[]"]
    by (simp add: pstate0_def EXIT_SUCCESS_def)
qed

subsection \<open>Claim C2: the result of the serializer\<close>

text \<open>
  Claim C2 against the code.  Once the program has been compiled, the run ends with
  \<^verbatim>\<open>EXIT_SUCCESS\<close> and prints nothing more, whatever \<^verbatim>\<open>mrb_dump_irep_binary\<close> returns,
  and whatever \<^verbatim>\<open>mrb_dump_irep_cfunc\<close> returns other than
  \<^verbatim>\<open>MRB_DUMP_INVALID_ARGUMENT\<close>: a write failure of the serializer is neither reported
  nor turned into a non-zero exit code.
\<close>

theorem serializer_result_ignored:
  assumes "parse_args e prog argv = Returned n a tr"
    and "mrb_open_ok e" and "n \<noteq> EXIT_FAILURE" and "rfp a = Some f"
    and "\<not> (mrb_undef_p (mrb_load_file_cxt e f (filename a) (verbose a)) \<or>
            mrb_fixnum (mrb_load_file_cxt e f (filename a) (verbose a)) < 0)"
    and "\<not> check_syntax a"
  shows "(initname a = None \<longrightarrow>
            main e prog argv =
              (EXIT_SUCCESS,
               tr @ [Load_file f (filename a) (verbose a),
                     Dump_binary n (debug_info a) (wfp a)] @ cleanup a)) \<and>
         (\<forall>symname. initname a = Some symname \<and>
            mrb_dump_irep_cfunc e n (debug_info a) (wfp a) symname
              \<noteq> MRB_DUMP_INVALID_ARGUMENT e \<longrightarrow>
            main e prog argv =
              (EXIT_SUCCESS,
               tr @ [Load_file f (filename a) (verbose a),
                     Dump_cfunc n (debug_info a) (wfp a) symname] @ cleanup a)) \<and>
         EXIT_SUCCESS = 0"
  using assms
  by (simp add: main_def compile_and_emit_def Let_def EXIT_SUCCESS_def)

text \<open>
  The command line \<^verbatim>\<open>mrbc -o/dev/full foo.rb\<close>, where the serializer returns
  \<^verbatim>\<open>MRB_DUMP_WRITE_FAULT\<close>.
\<close>

theorem serializer_result_ignored_witness:
  "parse_args sample_env ''mrbc'' [''-o/dev/full'', ''foo.rb''] =
     Returned 0
       \<lparr>rfp = Some (Rfile ''foo.rb''), wfp = Some (Wfile ''/dev/full''),
        filename = Some ''foo.rb'', initname = None, ext = ''.mrb'', check_syntax = False,
        verbose = False, debug_info = False\<rparr>
       [Fopen ''foo.rb'' ''r'', Fopen ''/dev/full'' ''wb''] \<and>
   mrb_dump_irep_binary sample_env 0 False (Some (Wfile ''/dev/full'')) = - 2 \<and>
   main sample_env ''mrbc'' [''-o/dev/full'', ''foo.rb''] =
     (0, [Fopen ''foo.rb'' ''r'', Fopen ''/dev/full'' ''wb'',
          Load_file (Rfile ''foo.rb'') (Some ''foo.rb'') False,
          Dump_binary 0 False (Some (Wfile ''/dev/full'')),
          Fclose (Rfile ''foo.rb''), Fclose (Wfile ''/dev/full''), Mrb_close])"
proof -
  let ?a = "\<lparr>rfp = Some (Rfile ''foo.rb''), wfp = Some (Wfile ''/dev/full''),
        filename = Some ''foo.rb'', initname = None, ext = ''.mrb'', check_syntax = False,
        verbose = False, debug_info = False\<rparr>"
  have h1: "parse_args sample_env ''mrbc'' [''-o/dev/full'', ''foo.rb''] =
      Returned 0 ?a [Fopen ''foo.rb'' ''r'', Fopen ''/dev/full'' ''wb'']"
    by (simp add: run_defs)
  have h2: "mrb_open_ok sample_env" and h3: "(0::int) \<noteq> EXIT_FAILURE"
    and h4: "rfp ?a = Some (Rfile ''foo.rb'')"
    and h5: "\<not> (mrb_undef_p (mrb_load_file_cxt sample_env (Rfile ''foo.rb'') (filename ?a) (verbose ?a)) \<or>
            mrb_fixnum (mrb_load_file_cxt sample_env (Rfile ''foo.rb'') (filename ?a) (verbose ?a)) < 0)"
    and h6: "\<not> check_syntax ?a" and h7: "initname ?a = None"
    by (simp_all add: sample_env_def EXIT_FAILURE_def)
  from serializer_result_ignored [OF h1 h2 h3 h4 h5 h6] h7
  have "main sample_env ''mrbc'' [''-o/dev/full'', ''foo.rb''] =
      (EXIT_SUCCESS,
       [Fopen ''foo.rb'' ''r'', Fopen ''/dev/full'' ''wb''] @
       [Load_file (Rfile ''foo.rb'') (filename ?a) (verbose ?a),
        Dump_binary 0 (debug_info ?a) (wfp ?a)] @ cleanup ?a)"
    by blast
  then show ?thesis
    using h1 by (simp add: cleanup_def EXIT_SUCCESS_def sample_env_def)
qed

subsection \<open>Claim C3: release of the resources\<close>

text \<open>
  Claim C3 against the code.  When \<^verbatim>\<open>mrb_dump_irep_cfunc\<close> rejects the symbol name,
  \<^verbatim>\<open>main\<close> prints ``Invalid C language symbol name'' and returns \<^verbatim>\<open>EXIT_FAILURE\<close>
  without calling \<^verbatim>\<open>cleanup\<close>: neither stream is closed and \<^verbatim>\<open>mrb_close\<close> is not
  called, anywhere in the run.
\<close>

theorem invalid_symbol_exit_skips_cleanup:
  assumes "parse_args e prog argv = Returned n a tr"
    and "mrb_open_ok e" and "n \<noteq> EXIT_FAILURE" and "rfp a = Some f"
    and "\<not> (mrb_undef_p (mrb_load_file_cxt e f (filename a) (verbose a)) \<or>
            mrb_fixnum (mrb_load_file_cxt e f (filename a) (verbose a)) < 0)"
    and "\<not> check_syntax a" and "initname a = Some symname"
    and "mrb_dump_irep_cfunc e n (debug_info a) (wfp a) symname = MRB_DUMP_INVALID_ARGUMENT e"
  shows "main e prog argv =
           (EXIT_FAILURE,
            tr @ [Load_file f (filename a) (verbose a),
                  Dump_cfunc n (debug_info a) (wfp a) symname,
                  Printf (symname @ '': Invalid C language symbol name'' @ nl)]) \<and>
         \<not> list_ex is_release (snd (main e prog argv))"
proof -
  have "\<not> list_ex is_release tr"
    using parse_args_release [of e prog argv] assms(1) by simp
  with assms show ?thesis
    by (simp add: main_def compile_and_emit_def Let_def)
qed

text \<open>The command line \<^verbatim>\<open>mrbc -B1x foo.rb\<close>.\<close>

theorem invalid_symbol_exit_skips_cleanup_witness:
  "parse_args sample_env ''mrbc'' [''-B1x'', ''foo.rb''] =
     Returned 0
       \<lparr>rfp = Some (Rfile ''foo.rb''), wfp = Some (Wfile ''foo.c''),
        filename = Some ''foo.rb'', initname = Some ''1x'', ext = ''.c'', check_syntax = False,
        verbose = False, debug_info = False\<rparr>
       [Fopen ''foo.rb'' ''r'', Fopen ''foo.c'' ''wb''] \<and>
   main sample_env ''mrbc'' [''-B1x'', ''foo.rb''] =
     (1, [Fopen ''foo.rb'' ''r'', Fopen ''foo.c'' ''wb'',
          Load_file (Rfile ''foo.rb'') (Some ''foo.rb'') False,
          Dump_cfunc 0 False (Some (Wfile ''foo.c'')) ''1x'',
          Printf (''1x: Invalid C language symbol name'' @ nl)]) \<and>
   \<not> list_ex is_release (snd (main sample_env ''mrbc'' [''-B1x'', ''foo.rb'']))"
proof -
  let ?a = "\<lparr>rfp = Some (Rfile ''foo.rb''), wfp = Some (Wfile ''foo.c''),
        filename = Some ''foo.rb'', initname = Some ''1x'', ext = ''.c'', check_syntax = False,
        verbose = False, debug_info = False\<rparr>"
  have h1: "parse_args sample_env ''mrbc'' [''-B1x'', ''foo.rb''] =
      Returned 0 ?a [Fopen ''foo.rb'' ''r'', Fopen ''foo.c'' ''wb'']"
    by (simp add: run_defs)
  have h2: "mrb_open_ok sample_env" and h3: "(0::int) \<noteq> EXIT_FAILURE"
    and h4: "rfp ?a = Some (Rfile ''foo.rb'')"
    and h5: "\<not> (mrb_undef_p (mrb_load_file_cxt sample_env (Rfile ''foo.rb'') (filename ?a) (verbose ?a)) \<or>
            mrb_fixnum (mrb_load_file_cxt sample_env (Rfile ''foo.rb'') (filename ?a) (verbose ?a)) < 0)"
    and h6: "\<not> check_syntax ?a" and h7: "initname ?a = Some ''1x''"
    and h8: "mrb_dump_irep_cfunc sample_env 0 (debug_info ?a) (wfp ?a) ''1x'' =
               MRB_DUMP_INVALID_ARGUMENT sample_env"
    by (simp_all add: sample_env_def EXIT_FAILURE_def)
  from invalid_symbol_exit_skips_cleanup [OF h1 h2 h3 h4 h5 h6 h7 h8]
  show ?thesis
    using h1 by (simp add: EXIT_FAILURE_def)
qed

subsection \<open>Claim C4: the derived output name\<close>

text \<open>
  Claim C4, as the code has it.  When the loop has run through all tokens, a program file
  \<open>p\<close> other than \<^verbatim>\<open>-\<close> is the input, and no \<^verbatim>\<open>-o\<close> and no \<^verbatim>\<open>-c\<close> switch was given,
  the one file opened for writing is \<open>get_outfilename p x\<close>, where \<open>x\<close> is \<^verbatim>\<open>.c\<close> if a
  \<^verbatim>\<open>-B\<close> switch was given and \<^verbatim>\<open>.mrb\<close> otherwise.  That name is \<open>p\<close> cut at the last
  dot of the whole path \<open>p\<close>, directories included, followed by \<open>x\<close>; it is \<open>p\<close> followed
  by \<open>x\<close> if the path has no dot anywhere.
\<close>

theorem derived_output_name:
  assumes "scan e prog argv pstate0 = Next s"
    and "infile s = Some p" and "p \<noteq> ''-''"
    and "\<forall>t\<in>set argv. \<not> switch_char t (CHR ''o'')"
    and "\<forall>t\<in>set argv. \<not> switch_char t (CHR ''c'')"
    and "x = (if \<exists>t\<in>set argv. switch_char t (CHR ''B'') then ''.c'' else ''.mrb'')"
  shows "filter is_wopen (events (parse_args e prog argv)) = [Fopen (get_outfilename p x) ''wb''] \<and>
         (fopen_w_ok e (get_outfilename p x) \<longrightarrow>
            parse_args e prog argv =
              Returned EXIT_SUCCESS ((pargs s)\<lparr>wfp := Some (Wfile (get_outfilename p x))\<rparr>)
                (out s @ [Fopen (get_outfilename p x) ''wb''])) \<and>
         (CHR ''.'' \<notin> set p \<longrightarrow> get_outfilename p x = p @ x) \<and>
         (\<forall>stem suf. p = stem @ CHR ''.'' # suf \<and> CHR ''.'' \<notin> set suf \<longrightarrow>
            get_outfilename p x = stem @ x)"
proof -
  let ?d = "get_outfilename p x"
  from scan_flags [OF assms(1)] assms(4,5)
  have o: "outfile s = None" and c: "\<not> check_syntax (pargs s)"
    and b: "initname (pargs s) \<noteq> None \<longleftrightarrow> (\<exists>t\<in>set argv. switch_char t (CHR ''B''))"
    by (simp_all add: pstate0_def args_zero_def)
  from scan_ext [OF assms(1)] b assms(6) have x: "ext (pargs s) = x"
    by (cases "initname (pargs s)") (auto simp: RITEBIN_EXT_def C_EXT_def)
  from assms(6) have x': "x = RITEBIN_EXT \<or> x = C_EXT" and ne: "x \<noteq> []"
    by (auto simp: RITEBIN_EXT_def C_EXT_def)
  from x' have d: "?d \<noteq> ''-''"
    by (rule derived_not_stdout)
  from x have dx: "get_outfilename p (ext (pargs s)) = ?d"
    by simp
  note r = resolve_derives [OF assms(2,3) o c dx d, of e prog]
  have nw: "filter is_wopen (out s) = []"
    using scan_events [of e prog argv] assms(1) by (simp add: scan_events_kinds)
  have res: "result s = EXIT_SUCCESS"
    using assms(1) by (rule scan_result)
  have p: "parse_args e prog argv = at_exit (resolve e prog s)"
    using assms(1) by (simp add: parse_args_def)
  have 1: "filter is_wopen (events (parse_args e prog argv)) = [Fopen ?d ''wb'']"
    using nw by (simp add: p r at_exit_def)
  have 2: "parse_args e prog argv =
      Returned EXIT_SUCCESS ((pargs s)\<lparr>wfp := Some (Wfile ?d)\<rparr>) (out s @ [Fopen ?d ''wb''])"
    if "fopen_w_ok e ?d"
    using that res by (simp add: p r at_exit_def)
  have 3: "get_outfilename p x = p @ x" if "CHR ''.'' \<notin> set p"
    using ne that by (rule get_outfilename_no_dot)
  have 4: "get_outfilename p x = stem @ x"
    if "p = stem @ CHR ''.'' # suf \<and> CHR ''.'' \<notin> set suf" for stem suf
    using that ne by (simp add: get_outfilename_last_dot)
  from 1 2 3 4 show ?thesis
    by blast
qed

text \<open>The command line \<^verbatim>\<open>mrbc -Bmain foo.rb\<close>.\<close>

theorem derived_output_name_witness:
  "scan sample_env ''mrbc'' [''-Bmain'', ''foo.rb''] pstate0 =
     Next \<lparr>pargs = \<lparr>rfp = Some (Rfile ''foo.rb''), wfp = None, filename = Some ''foo.rb'',
                    initname = Some ''main'', ext = ''.c'', check_syntax = False,
                    verbose = False, debug_info = False\<rparr>,
           infile = Some ''foo.rb'', outfile = None, result = 0,
           out = [Fopen ''foo.rb'' ''r'']\<rparr> \<and>
   ''foo.rb'' \<noteq> ''-'' \<and> switch_char ''-Bmain'' (CHR ''B'') \<and>
   filter is_wopen (events (parse_args sample_env ''mrbc'' [''-Bmain'', ''foo.rb''])) =
     [Fopen ''foo.c'' ''wb''] \<and>
   get_outfilename ''foo.rb'' ''.c'' = ''foo.c''"
proof -
  let ?s = "\<lparr>pargs = \<lparr>rfp = Some (Rfile ''foo.rb''), wfp = None, filename = Some ''foo.rb'',
                    initname = Some ''main'', ext = ''.c'', check_syntax = False,
                    verbose = False, debug_info = False\<rparr>,
           infile = Some ''foo.rb'', outfile = None, result = 0,
           out = [Fopen ''foo.rb'' ''r'']\<rparr>"
  have h1: "scan sample_env ''mrbc'' [''-Bmain'', ''foo.rb''] pstate0 = Next ?s"
    by (simp add: run_defs)
  have h2: "infile ?s = Some ''foo.rb''" and h3: "''foo.rb'' \<noteq> ''-''"
    by simp_all
  have sw: "switch_char ''-Bmain'' (CHR ''B'')"
      "\<not> switch_char ''-Bmain'' (CHR ''o'')" "\<not> switch_char ''-Bmain'' (CHR ''c'')"
      "\<not> switch_char ''foo.rb'' (CHR ''o'')" "\<not> switch_char ''foo.rb'' (CHR ''c'')"
    by (simp_all add: switch_char_def is_switch_def)
  then have h4: "\<forall>t\<in>set [''-Bmain'', ''foo.rb'']. \<not> switch_char t (CHR ''o'')"
    and h5: "\<forall>t\<in>set [''-Bmain'', ''foo.rb'']. \<not> switch_char t (CHR ''c'')"
    and h6: "''.c'' = (if \<exists>t\<in>set [''-Bmain'', ''foo.rb'']. switch_char t (CHR ''B'')
                       then ''.c'' else ''.mrb'')"
    by simp_all
  from derived_output_name [OF h1 h2 h3 h4 h5 h6]
  have "filter is_wopen (events (parse_args sample_env ''mrbc'' [''-Bmain'', ''foo.rb''])) =
      [Fopen (get_outfilename ''foo.rb'' ''.c'') ''wb'']"
    by blast
  moreover have "get_outfilename ''foo.rb'' ''.c'' = ''foo.c''"
    by (simp add: get_outfilename_def)
  ultimately show ?thesis
    using h1 sw(1) by simp
qed

text \<open>
  Claim C4 as stated fails where a directory of the path has a dot and the file name has
  none: for \<^verbatim>\<open>a.b/foo\<close> the file name \<^verbatim>\<open>foo\<close> has no extension, so the claim derives
  \<^verbatim>\<open>a.b/foo.mrb\<close>, while the code cuts the path at the dot of \<^verbatim>\<open>a.b\<close> and opens
  \<^verbatim>\<open>a.mrb\<close>.
\<close>

theorem derived_output_name_counterexample:
  "filter is_wopen (events (parse_args sample_env ''mrbc'' [''a.b/foo''])) =
     [Fopen ''a.mrb'' ''wb''] \<and>
   get_outfilename ''a.b/foo'' ''.mrb'' = ''a.mrb'' \<and>
   spec_outfilename ''a.b/foo'' ''.mrb'' = ''a.b/foo.mrb'' \<and>
   filter is_wopen (events (parse_args sample_env ''mrbc'' [''a.b/foo''])) \<noteq>
     [Fopen (spec_outfilename ''a.b/foo'' ''.mrb'') ''wb'']"
  by (simp add: run_defs spec_outfilename_def)

text \<open>The examples of the specification, on which the code and the claim agree.\<close>

lemma derived_output_examples:
  "filter is_wopen (events (parse_args sample_env ''mrbc'' [''foo.rb''])) =
     [Fopen ''foo.mrb'' ''wb'']"
  "filter is_wopen (events (parse_args sample_env ''mrbc'' [''-Bmain'', ''foo.rb''])) =
     [Fopen ''foo.c'' ''wb'']"
  "filter is_wopen (events (parse_args sample_env ''mrbc'' [''foo''])) =
     [Fopen ''foo.mrb'' ''wb'']"
  "spec_outfilename ''foo.rb'' ''.mrb'' = ''foo.mrb''"
  "spec_outfilename ''foo'' ''.mrb'' = ''foo.mrb''"
  "spec_outfilename ''foo.rb'' ''.c'' = ''foo.c''"
  by (simp_all add: run_defs spec_outfilename_def)

subsection \<open>Claim C5: the banner switches\<close>

text \<open>
  Claim C5, as the code has it.  When the loop reaches \<^verbatim>\<open>--version\<close> or
  \<^verbatim>\<open>--copyright\<close> (no token before it has stopped the loop) the process prints the
  banner and exits with code 0 at once: whatever follows is never looked at, nothing is
  compiled and no output is opened.  If only switches precede the flag, no file is opened
  at all.  If a token that is not a switch precedes the flag, a file has been opened by
  then: the run holds exactly one \<^verbatim>\<open>fopen\<close>, for reading, of the first such token.
\<close>

theorem banner_switch_when_reached:
  assumes "scan e prog pre pstate0 = Next s"
    and "t = ''--version'' \<or> t = ''--copyright''"
    and "mrb_open_ok e"
  shows "main e prog (pre @ t # rest) =
           (EXIT_SUCCESS, out s @ [if t = ''--version'' then Show_version else Show_copyright]) \<and>
         EXIT_SUCCESS = 0 \<and>
         \<not> list_ex is_load (snd (main e prog (pre @ t # rest))) \<and>
         \<not> list_ex is_wopen (snd (main e prog (pre @ t # rest))) \<and>
         ((\<forall>u\<in>set pre. is_switch u) \<longrightarrow>
            \<not> list_ex is_fopen (snd (main e prog (pre @ t # rest)))) \<and>
         ((\<exists>u\<in>set pre. \<not> is_switch u) \<longrightarrow>
            list_ex is_fopen (snd (main e prog (pre @ t # rest)))) \<and>
         (\<forall>sw p later. pre = sw @ p # later \<and> (\<forall>u\<in>set sw. is_switch u) \<and> \<not> is_switch p \<longrightarrow>
            filter is_fopen (snd (main e prog (pre @ t # rest))) = [Fopen p ''r''])"
proof -
  let ?b = "if t = ''--version'' then Show_version else Show_copyright"
  have sw: "switch_char t (CHR ''-'')"
    using assms(2) by (auto simp: switch_char_def is_switch_def)
  have "arg_step e prog t s = Exit EXIT_SUCCESS (out s @ [?b])"
    using assms(2) by (auto simp: arg_step_long [OF sw])
  then have "parse_args e prog (pre @ t # rest) = Exited EXIT_SUCCESS (out s @ [?b])"
    by (simp add: parse_args_after_prefix [OF assms(1)])
  then have m: "main e prog (pre @ t # rest) = (EXIT_SUCCESS, out s @ [?b])"
    using assms(3) by (simp add: main_def)
  have ev: "list_all scan_event (out s)"
    using scan_events [of e prog pre] assms(1) by simp
  have fo: "\<not> list_ex is_fopen (out s)" if "\<forall>u\<in>set pre. is_switch u"
    using scan_switch_events [OF that, of e prog] assms(1) by simp
  have op: "list_ex is_fopen (out s)" if "\<exists>u\<in>set pre. \<not> is_switch u"
    using assms(1) that by (rule scan_opened)
  have one: "filter is_fopen (out s) = [Fopen p ''r'']"
    if "pre = sw @ p # later \<and> (\<forall>u\<in>set sw. is_switch u) \<and> \<not> is_switch p" for sw p later
    using that assms(1) by (auto intro: scan_first_program_file)
  have 1: "\<not> list_ex is_load (snd (main e prog (pre @ t # rest)))"
    and 2: "\<not> list_ex is_wopen (snd (main e prog (pre @ t # rest)))"
    using ev by (simp_all add: m scan_events_kinds)
  have 3: "\<not> list_ex is_fopen (snd (main e prog (pre @ t # rest)))"
    if "\<forall>u\<in>set pre. is_switch u"
    using fo [OF that] by (simp add: m)
  have 4: "list_ex is_fopen (snd (main e prog (pre @ t # rest)))"
    if "\<exists>u\<in>set pre. \<not> is_switch u"
    using op [OF that] by (simp add: m)
  have 5: "filter is_fopen (snd (main e prog (pre @ t # rest))) = [Fopen p ''r'']"
    if "pre = sw @ p # later \<and> (\<forall>u\<in>set sw. is_switch u) \<and> \<not> is_switch p" for sw p later
    using one [OF that] by (simp add: m)
  have 0: "EXIT_SUCCESS = 0"
    by (simp add: EXIT_SUCCESS_def)
  from m 0 1 2 3 4 5 show ?thesis
    by blast
qed

text \<open>
  The command lines \<^verbatim>\<open>mrbc -g --version missing.rb\<close> and
  \<^verbatim>\<open>mrbc -g foo.rb --copyright -c\<close>.
\<close>

theorem banner_switch_when_reached_witness:
  "scan sample_env ''mrbc'' [''-g''] pstate0 =
     Next (pstate0\<lparr>pargs := (pargs pstate0)\<lparr>debug_info := True\<rparr>\<rparr>) \<and>
   mrb_open_ok sample_env \<and> is_switch ''-g'' \<and>
   main sample_env ''mrbc'' ([''-g''] @ ''--version'' # [''missing.rb'']) =
     (EXIT_SUCCESS, [Show_version]) \<and>
   \<not> list_ex is_fopen (snd (main sample_env ''mrbc'' ([''-g''] @ ''--version'' # [''missing.rb'']))) \<and>
   scan sample_env ''mrbc'' [''-g'', ''foo.rb''] pstate0 =
     Next (pstate0\<lparr>pargs := (pargs pstate0)\<lparr>debug_info := True, filename := Some ''foo.rb'',
                                              rfp := Some (Rfile ''foo.rb'')\<rparr>,
                   infile := Some ''foo.rb'', out := [Fopen ''foo.rb'' ''r'']\<rparr>) \<and>
   \<not> is_switch ''foo.rb'' \<and>
   main sample_env ''mrbc'' ([''-g'', ''foo.rb''] @ ''--copyright'' # [''-c'']) =
     (EXIT_SUCCESS, [Fopen ''foo.rb'' ''r'', Show_copyright]) \<and>
   filter is_fopen (snd (main sample_env ''mrbc'' ([''-g'', ''foo.rb''] @ ''--copyright'' # [''-c'']))) =
     [Fopen ''foo.rb'' ''r''] \<and>
   list_ex is_fopen (snd (main sample_env ''mrbc'' ([''-g'', ''foo.rb''] @ ''--copyright'' # [''-c''])))"
proof -
  let ?s1 = "pstate0\<lparr>pargs := (pargs pstate0)\<lparr>debug_info := True\<rparr>\<rparr>"
  let ?s2 = "pstate0\<lparr>pargs := (pargs pstate0)\<lparr>debug_info := True, filename := Some ''foo.rb'',
                                              rfp := Some (Rfile ''foo.rb'')\<rparr>,
                   infile := Some ''foo.rb'', out := [Fopen ''foo.rb'' ''r'']\<rparr>"
  have h1: "scan sample_env ''mrbc'' [''-g''] pstate0 = Next ?s1"
    by (simp add: arg_step_def)
  have h2: "''--version'' = ''--version'' \<or> ''--version'' = ''--copyright''"
    by simp
  have h3: "mrb_open_ok sample_env"
    by (simp add: sample_env_def)
  have h4: "is_switch ''-g''" and h5: "\<not> is_switch ''foo.rb''"
    by (simp_all add: is_switch_def)
  have k1: "scan sample_env ''mrbc'' [''-g'', ''foo.rb''] pstate0 = Next ?s2"
    by (simp add: arg_step_def emit_def sample_env_def pstate0_def args_zero_def)
  have k2: "''--copyright'' = ''--version'' \<or> ''--copyright'' = ''--copyright''"
    by simp
  have k3: "[''-g'', ''foo.rb''] = [''-g''] @ ''foo.rb'' # [] \<and>
            (\<forall>u\<in>set [''-g'']. is_switch u) \<and> \<not> is_switch ''foo.rb''"
    using h4 h5 by simp
  have k4: "\<exists>u\<in>set [''-g'', ''foo.rb'']. \<not> is_switch u"
    using h5 by simp
  have a4: "\<forall>u\<in>set [''-g'']. is_switch u"
    using h4 by simp
  note a = banner_switch_when_reached [OF h1 h2 h3, of "[''missing.rb'']"]
  note b = banner_switch_when_reached [OF k1 k2 h3, of "[''-c'']"]
  from a a4 have a1: "main sample_env ''mrbc'' ([''-g''] @ ''--version'' # [''missing.rb'']) =
      (EXIT_SUCCESS, out ?s1 @ [if ''--version'' = ''--version'' then Show_version else Show_copyright])"
    and a2: "\<not> list_ex is_fopen
               (snd (main sample_env ''mrbc'' ([''-g''] @ ''--version'' # [''missing.rb''])))"
    by blast+
  from b k3 k4 have b1: "main sample_env ''mrbc'' ([''-g'', ''foo.rb''] @ ''--copyright'' # [''-c'']) =
      (EXIT_SUCCESS,
       out ?s2 @ [if ''--copyright'' = ''--version'' then Show_version else Show_copyright])"
    and b2: "filter is_fopen
               (snd (main sample_env ''mrbc'' ([''-g'', ''foo.rb''] @ ''--copyright'' # [''-c'']))) =
             [Fopen ''foo.rb'' ''r'']"
    and b3: "list_ex is_fopen
               (snd (main sample_env ''mrbc'' ([''-g'', ''foo.rb''] @ ''--copyright'' # [''-c''])))"
    by blast+
  from a1 have a1': "main sample_env ''mrbc'' ([''-g''] @ ''--version'' # [''missing.rb'']) =
      (EXIT_SUCCESS, [Show_version])"
    by (simp add: pstate0_def)
  from b1 have b1': "main sample_env ''mrbc'' ([''-g'', ''foo.rb''] @ ''--copyright'' # [''-c'']) =
      (EXIT_SUCCESS, [Fopen ''foo.rb'' ''r'', Show_copyright])"
    by (simp add: pstate0_def)
  from h1 h3 h4 a1' a2 k1 h5 b1' b2 b3 show ?thesis
    by blast
qed

text \<open>
  Claim C5 as stated fails in both parts: with the program file first it is opened before
  the banner is printed, and after an unknown long switch the loop never reaches
  \<^verbatim>\<open>--version\<close>, so the process exits with code 1.
\<close>

theorem banner_switch_counterexample:
  "main sample_env ''mrbc'' [''foo.rb'', ''--version''] =
     (0, [Fopen ''foo.rb'' ''r'', Show_version]) \<and>
   list_ex is_fopen (snd (main sample_env ''mrbc'' [''foo.rb'', ''--version''])) \<and>
   fst (main sample_env ''mrbc'' [''--bogus'', ''--version'']) = 1 \<and>
   Show_version \<notin> set (snd (main sample_env ''mrbc'' [''--bogus'', ''--version'']))"
  by (simp add: run_defs usage_def usage_msg_def)

subsection \<open>Claim C6: tokens after the input\<close>

text \<open>
  Claim C6, as the code has it.  After a lone \<^verbatim>\<open>-\<close> every later token is ignored,
  switch or not: the loop has stopped.  After a token that is not a switch, every later
  token that is not a switch is ignored: \<^verbatim>\<open>parse_args\<close> and \<^verbatim>\<open>main\<close> behave as with
  that token absent.  A switch is read wherever the loop reaches it, also when a program
  file is bound by then (\<^verbatim>\<open>rfp\<close> is not \<^verbatim>\<open>NULL\<close>), and has the effect of its
  \<^verbatim>\<open>case\<close>: \<^verbatim>\<open>-c\<close> sets \<^verbatim>\<open>check_syntax\<close>, in the state the loop goes on with and in
  whatever \<^verbatim>\<open>parse_args\<close> returns; \<^verbatim>\<open>-g\<close> sets \<^verbatim>\<open>debug_info\<close>; \<^verbatim>\<open>-v\<close> sets
  \<^verbatim>\<open>verbose\<close> and prints the banner the first time; \<^verbatim>\<open>-o\<close> records the output name
  or fails on a second one; \<^verbatim>\<open>-B\<close> records the symbol and the extension or fails on
  an empty name; \<^verbatim>\<open>--verbose\<close> sets \<^verbatim>\<open>verbose\<close>, \<^verbatim>\<open>--version\<close> and
  \<^verbatim>\<open>--copyright\<close> exit, and any other long switch fails.
\<close>

theorem later_tokens_ignored:
  "parse_args e prog (pre @ ''-'' # r1 @ t # r2) = parse_args e prog (pre @ ''-'' # r1 @ r2) \<and>
   main e prog (pre @ ''-'' # r1 @ t # r2) = main e prog (pre @ ''-'' # r1 @ r2) \<and>
   ((\<exists>x\<in>set pre. \<not> is_switch x) \<and> \<not> is_switch t \<longrightarrow>
      parse_args e prog (pre @ t # rest) = parse_args e prog (pre @ rest) \<and>
      main e prog (pre @ t # rest) = main e prog (pre @ rest)) \<and>
   (\<forall>s. scan e prog pre pstate0 = Next s \<longrightarrow>
      ((\<exists>x\<in>set pre. \<not> is_switch x) \<longrightarrow> rfp (pargs s) \<noteq> None) \<and>
      (switch_char t (CHR ''c'') \<longrightarrow>
         scan e prog (pre @ t # rest) pstate0 =
           scan e prog rest (s\<lparr>pargs := (pargs s)\<lparr>check_syntax := True\<rparr>\<rparr>) \<and>
         (\<forall>n a tr. parse_args e prog (pre @ t # rest) = Returned n a tr \<longrightarrow> check_syntax a)) \<and>
      (switch_char t (CHR ''g'') \<longrightarrow>
         scan e prog (pre @ t # rest) pstate0 =
           scan e prog rest (s\<lparr>pargs := (pargs s)\<lparr>debug_info := True\<rparr>\<rparr>)) \<and>
      (switch_char t (CHR ''v'') \<longrightarrow>
         scan e prog (pre @ t # rest) pstate0 =
           scan e prog rest
             (s\<lparr>pargs := (pargs s)\<lparr>verbose := True\<rparr>,
                out := out s @ (if verbose (pargs s) then [] else [Show_version])\<rparr>)) \<and>
      (switch_char t (CHR ''o'') \<longrightarrow>
         scan e prog (pre @ t # rest) pstate0 =
           (case outfile s of
              None \<Rightarrow> scan e prog rest (s\<lparr>outfile := Some (drop 2 t)\<rparr>)
            | Some f \<Rightarrow>
                Goto_exit
                  (s\<lparr>out := out s @
                       [Printf (prog @ '': An output file is already specified. ('' @ f @ '')'' @ nl)],
                     result := EXIT_FAILURE\<rparr>))) \<and>
      (switch_char t (CHR ''B'') \<longrightarrow>
         scan e prog (pre @ t # rest) pstate0 =
           (if drop 2 t = [] then
              Goto_exit
                (s\<lparr>pargs := (pargs s)\<lparr>ext := C_EXT, initname := Some (drop 2 t)\<rparr>,
                   out := out s @ [Printf (prog @ '': Function name is not specified.'' @ nl)],
                   result := EXIT_FAILURE\<rparr>)
            else
              scan e prog rest
                (s\<lparr>pargs := (pargs s)\<lparr>ext := C_EXT, initname := Some (drop 2 t)\<rparr>\<rparr>))) \<and>
      (switch_char t (CHR ''-'') \<longrightarrow>
         scan e prog (pre @ t # rest) pstate0 =
           (if drop 2 t = ''version'' then Exit EXIT_SUCCESS (out s @ [Show_version])
            else if drop 2 t = ''verbose'' then
              scan e prog rest (s\<lparr>pargs := (pargs s)\<lparr>verbose := True\<rparr>\<rparr>)
            else if drop 2 t = ''copyright'' then Exit EXIT_SUCCESS (out s @ [Show_copyright])
            else Goto_exit (s\<lparr>result := EXIT_FAILURE\<rparr>))))"
proof -
  have "scan e prog (pre @ ''-'' # r1 @ t # r2) pstate0 = scan e prog (pre @ ''-'' # r1 @ r2) pstate0"
    by (simp add: scan_stops_at_dash [of e prog pre "r1 @ t # r2"]
                  scan_stops_at_dash [of e prog pre "r1 @ r2"])
  then have a: "parse_args e prog (pre @ ''-'' # r1 @ t # r2) = parse_args e prog (pre @ ''-'' # r1 @ r2)"
    by (rule parse_args_cong)
  have b: "parse_args e prog (pre @ t # rest) = parse_args e prog (pre @ rest)"
    if "\<exists>x\<in>set pre. \<not> is_switch x" and "\<not> is_switch t"
    using that by (intro parse_args_cong scan_drop_later_input)
  from a have a': "main e prog (pre @ ''-'' # r1 @ t # r2) = main e prog (pre @ ''-'' # r1 @ r2)"
    by (rule main_cong)
  have b': "main e prog (pre @ t # rest) = main e prog (pre @ rest)"
    if "\<exists>x\<in>set pre. \<not> is_switch x" and "\<not> is_switch t"
    using that by (intro main_cong b)
  have bound: "rfp (pargs s) \<noteq> None"
    if "scan e prog pre pstate0 = Next s" and "\<exists>x\<in>set pre. \<not> is_switch x" for s
    using that by (intro scan_binds_rfp [of e prog pre pstate0]) simp_all
  have c: "scan e prog (pre @ t # rest) pstate0 =
             scan e prog rest (s\<lparr>pargs := (pargs s)\<lparr>check_syntax := True\<rparr>\<rparr>)"
    if "scan e prog pre pstate0 = Next s" and "switch_char t (CHR ''c'')" for s
    using that by (simp add: scan_after_prefix arg_step_c)
  have c': "check_syntax a"
    if "scan e prog pre pstate0 = Next s" and "switch_char t (CHR ''c'')"
      and "parse_args e prog (pre @ t # rest) = Returned n a tr" for s n a tr
    using that by (rule check_syntax_set_when_reached)
  have g: "scan e prog (pre @ t # rest) pstate0 =
             scan e prog rest (s\<lparr>pargs := (pargs s)\<lparr>debug_info := True\<rparr>\<rparr>)"
    if "scan e prog pre pstate0 = Next s" and "switch_char t (CHR ''g'')" for s
    using that by (simp add: scan_after_prefix arg_step_g)
  have v: "scan e prog (pre @ t # rest) pstate0 =
             scan e prog rest
               (s\<lparr>pargs := (pargs s)\<lparr>verbose := True\<rparr>,
                  out := out s @ (if verbose (pargs s) then [] else [Show_version])\<rparr>)"
    if "scan e prog pre pstate0 = Next s" and "switch_char t (CHR ''v'')" for s
    using that by (simp add: scan_after_prefix arg_step_v)
  have o: "scan e prog (pre @ t # rest) pstate0 =
           (case outfile s of
              None \<Rightarrow> scan e prog rest (s\<lparr>outfile := Some (drop 2 t)\<rparr>)
            | Some f \<Rightarrow>
                Goto_exit
                  (s\<lparr>out := out s @
                       [Printf (prog @ '': An output file is already specified. ('' @ f @ '')'' @ nl)],
                     result := EXIT_FAILURE\<rparr>))"
    if "scan e prog pre pstate0 = Next s" and "switch_char t (CHR ''o'')" for s
    using that by (simp add: scan_after_prefix arg_step_o split: option.split)
  have B: "scan e prog (pre @ t # rest) pstate0 =
           (if drop 2 t = [] then
              Goto_exit
                (s\<lparr>pargs := (pargs s)\<lparr>ext := C_EXT, initname := Some (drop 2 t)\<rparr>,
                   out := out s @ [Printf (prog @ '': Function name is not specified.'' @ nl)],
                   result := EXIT_FAILURE\<rparr>)
            else
              scan e prog rest
                (s\<lparr>pargs := (pargs s)\<lparr>ext := C_EXT, initname := Some (drop 2 t)\<rparr>\<rparr>))"
    if "scan e prog pre pstate0 = Next s" and "switch_char t (CHR ''B'')" for s
    using that by (simp add: scan_after_prefix arg_step_B)
  have l: "scan e prog (pre @ t # rest) pstate0 =
           (if drop 2 t = ''version'' then Exit EXIT_SUCCESS (out s @ [Show_version])
            else if drop 2 t = ''verbose'' then
              scan e prog rest (s\<lparr>pargs := (pargs s)\<lparr>verbose := True\<rparr>\<rparr>)
            else if drop 2 t = ''copyright'' then Exit EXIT_SUCCESS (out s @ [Show_copyright])
            else Goto_exit (s\<lparr>result := EXIT_FAILURE\<rparr>))"
    if "scan e prog pre pstate0 = Next s" and "switch_char t (CHR ''-'')" for s
    using that by (simp add: scan_after_prefix arg_step_long)
  show ?thesis
    using a a' b b' bound c c' g v o B l
    by (intro conjI impI allI) (blast | assumption)+
qed

text \<open>
  An \<^verbatim>\<open>-o\<close> switch after \<^verbatim>\<open>-\<close>; a second program file after the first; and the
  switches \<^verbatim>\<open>-c\<close> and \<^verbatim>\<open>-oout.mrb\<close> after the program file \<^verbatim>\<open>foo.rb\<close>.
\<close>

theorem later_tokens_ignored_witness:
  "parse_args sample_env ''mrbc'' ([] @ ''-'' # [''-c''] @ ''-oa.mrb'' # []) =
     parse_args sample_env ''mrbc'' ([] @ ''-'' # [''-c''] @ []) \<and>
   \<not> is_switch ''foo.rb'' \<and> \<not> is_switch ''hello.rb'' \<and>
   parse_args sample_env ''mrbc'' ([''foo.rb'', ''-g''] @ ''hello.rb'' # [''-c'']) =
     parse_args sample_env ''mrbc'' ([''foo.rb'', ''-g''] @ [''-c'']) \<and>
   scan sample_env ''mrbc'' [''foo.rb''] pstate0 =
     Next (pstate0\<lparr>pargs := (pargs pstate0)\<lparr>filename := Some ''foo.rb'',
                                              rfp := Some (Rfile ''foo.rb'')\<rparr>,
                   infile := Some ''foo.rb'', out := [Fopen ''foo.rb'' ''r'']\<rparr>) \<and>
   switch_char ''-c'' (CHR ''c'') \<and> switch_char ''-oout.mrb'' (CHR ''o'') \<and>
   scan sample_env ''mrbc'' ([''foo.rb''] @ ''-c'' # []) pstate0 =
     Next (pstate0\<lparr>pargs := (pargs pstate0)\<lparr>filename := Some ''foo.rb'',
                                              rfp := Some (Rfile ''foo.rb''),
                                              check_syntax := True\<rparr>,
                   infile := Some ''foo.rb'', out := [Fopen ''foo.rb'' ''r'']\<rparr>) \<and>
   scan sample_env ''mrbc'' ([''foo.rb''] @ ''-oout.mrb'' # []) pstate0 =
     Next (pstate0\<lparr>pargs := (pargs pstate0)\<lparr>filename := Some ''foo.rb'',
                                              rfp := Some (Rfile ''foo.rb'')\<rparr>,
                   infile := Some ''foo.rb'', outfile := Some ''out.mrb'',
                   out := [Fopen ''foo.rb'' ''r'']\<rparr>)"
proof -
  let ?s = "pstate0\<lparr>pargs := (pargs pstate0)\<lparr>filename := Some ''foo.rb'',
                                              rfp := Some (Rfile ''foo.rb'')\<rparr>,
                   infile := Some ''foo.rb'', out := [Fopen ''foo.rb'' ''r'']\<rparr>"
  have h: "\<not> is_switch ''foo.rb''" "\<not> is_switch ''hello.rb''"
    by (simp_all add: is_switch_def)
  have h': "\<exists>x\<in>set [''foo.rb'', ''-g'']. \<not> is_switch x"
    using h by simp
  have k: "scan sample_env ''mrbc'' [''foo.rb''] pstate0 = Next ?s"
    by (simp add: arg_step_def emit_def sample_env_def pstate0_def args_zero_def)
  have sw: "switch_char ''-c'' (CHR ''c'')" "switch_char ''-oout.mrb'' (CHR ''o'')"
    by (simp_all add: switch_char_def is_switch_def)
  have o: "outfile ?s = None"
    by (simp add: pstate0_def)
  from later_tokens_ignored [of sample_env "''mrbc''" "[]" "[''-c'']" "''-oa.mrb''" "[]"]
  have 1: "parse_args sample_env ''mrbc'' ([] @ ''-'' # [''-c''] @ ''-oa.mrb'' # []) =
      parse_args sample_env ''mrbc'' ([] @ ''-'' # [''-c''] @ [])"
    by blast
  from later_tokens_ignored
      [of sample_env "''mrbc''" "[''foo.rb'', ''-g'']" "[]" "''hello.rb''" "[]" "[''-c'']"] h' h(2)
  have 2: "parse_args sample_env ''mrbc'' ([''foo.rb'', ''-g''] @ ''hello.rb'' # [''-c'']) =
      parse_args sample_env ''mrbc'' ([''foo.rb'', ''-g''] @ [''-c''])"
    by blast
  from later_tokens_ignored
      [of sample_env "''mrbc''" "[''foo.rb'']" "[]" "''-c''" "[]" "[]"] k sw(1)
  have "scan sample_env ''mrbc'' ([''foo.rb''] @ ''-c'' # []) pstate0 =
      scan sample_env ''mrbc'' [] (?s\<lparr>pargs := (pargs ?s)\<lparr>check_syntax := True\<rparr>\<rparr>)"
    by blast
  then have 3: "scan sample_env ''mrbc'' ([''foo.rb''] @ ''-c'' # []) pstate0 =
     Next (pstate0\<lparr>pargs := (pargs pstate0)\<lparr>filename := Some ''foo.rb'',
                                              rfp := Some (Rfile ''foo.rb''),
                                              check_syntax := True\<rparr>,
                   infile := Some ''foo.rb'', out := [Fopen ''foo.rb'' ''r'']\<rparr>)"
    by (simp add: pstate0_def)
  from later_tokens_ignored
      [of sample_env "''mrbc''" "[''foo.rb'']" "[]" "''-oout.mrb''" "[]" "[]"] k sw(2)
  have "scan sample_env ''mrbc'' ([''foo.rb''] @ ''-oout.mrb'' # []) pstate0 =
      (case outfile ?s of
         None \<Rightarrow> scan sample_env ''mrbc'' [] (?s\<lparr>outfile := Some (drop 2 ''-oout.mrb'')\<rparr>)
       | Some f \<Rightarrow>
           Goto_exit
             (?s\<lparr>out := out ?s @
                  [Printf (''mrbc'' @ '': An output file is already specified. ('' @ f @ '')'' @ nl)],
                result := EXIT_FAILURE\<rparr>))"
    by blast
  then have 4: "scan sample_env ''mrbc'' ([''foo.rb''] @ ''-oout.mrb'' # []) pstate0 =
     Next (pstate0\<lparr>pargs := (pargs pstate0)\<lparr>filename := Some ''foo.rb'',
                                              rfp := Some (Rfile ''foo.rb'')\<rparr>,
                   infile := Some ''foo.rb'', outfile := Some ''out.mrb'',
                   out := [Fopen ''foo.rb'' ''r'']\<rparr>)"
    by (simp add: pstate0_def)
  from 1 h 2 k sw 3 4 show ?thesis
    by blast
qed

text \<open>
  Claim C6 as stated fails: \<^verbatim>\<open>-c\<close> after the program file is read, and the resolved
  structure differs from the one without it (no output stream, \<^verbatim>\<open>check_syntax\<close> set).
\<close>

theorem switch_after_input_counterexample:
  "parse_args sample_env ''mrbc'' [''foo.rb'', ''-c''] =
     Returned 0
       \<lparr>rfp = Some (Rfile ''foo.rb''), wfp = None, filename = Some ''foo.rb'',
        initname = None, ext = ''.mrb'', check_syntax = True, verbose = False,
        debug_info = False\<rparr>
       [Fopen ''foo.rb'' ''r''] \<and>
   parse_args sample_env ''mrbc'' [''foo.rb''] =
     Returned 0
       \<lparr>rfp = Some (Rfile ''foo.rb''), wfp = Some (Wfile ''foo.mrb''),
        filename = Some ''foo.rb'', initname = None, ext = ''.mrb'', check_syntax = False,
        verbose = False, debug_info = False\<rparr>
       [Fopen ''foo.rb'' ''r'', Fopen ''foo.mrb'' ''wb''] \<and>
   parse_args sample_env ''mrbc'' [''foo.rb'', ''-c''] \<noteq>
     parse_args sample_env ''mrbc'' [''foo.rb'']"
  by (simp add: run_defs)

subsection \<open>Claim C7: syntax check only\<close>

text \<open>
  Claim C7.  Whenever \<^verbatim>\<open>parse_args\<close> returns with \<^verbatim>\<open>check_syntax\<close> set, it has opened
  no output stream (\<^verbatim>\<open>wfp\<close> is \<^verbatim>\<open>NULL\<close>), and the whole run opens no file for writing
  and calls no serializer, whatever \<^verbatim>\<open>-o\<close> and \<^verbatim>\<open>-B\<close> switches were given.  If the run
  gets to the compiler, then on success it prints the line ``Syntax OK'', releases its
  resources and exits with code 0, and on failure it exits with \<^verbatim>\<open>EXIT_FAILURE\<close>, which
  is not 0, and the line ``Syntax OK'' is nowhere in its output.  (The flag is set once
  the loop has reached a \<^verbatim>\<open>-c\<close> switch: lemma \<open>check_syntax_set_when_reached\<close>.)
\<close>

theorem check_syntax_opens_no_output:
  assumes "parse_args e prog argv = Returned n a tr" and "check_syntax a"
  shows "wfp a = None \<and>
         \<not> list_ex is_wopen (snd (main e prog argv)) \<and>
         \<not> list_ex is_dump (snd (main e prog argv)) \<and>
         (mrb_open_ok e \<and> n \<noteq> EXIT_FAILURE \<longrightarrow>
            (\<forall>f. rfp a = Some f \<longrightarrow>
               (if mrb_undef_p (mrb_load_file_cxt e f (filename a) (verbose a)) \<or>
                   mrb_fixnum (mrb_load_file_cxt e f (filename a) (verbose a)) < 0
                then fst (main e prog argv) = EXIT_FAILURE \<and>
                     Printf (''Syntax OK'' @ nl) \<notin> set (snd (main e prog argv))
                else main e prog argv =
                       (EXIT_SUCCESS,
                        tr @ [Load_file f (filename a) (verbose a), Printf (''Syntax OK'' @ nl)]
                           @ cleanup a)))) \<and>
         EXIT_SUCCESS = 0 \<and> EXIT_FAILURE \<noteq> 0"
proof -
  from parse_check_syntax [OF assms] have w: "wfp a = None" and ev: "list_all scan_event tr"
    by simp_all
  have m: "main e prog argv =
      (if \<not> mrb_open_ok e then
         (EXIT_FAILURE, [Fputs_stderr (''Invalid mrb_state, exiting mrbc'' @ nl)])
       else compile_and_emit e prog n a tr)"
    using assms(1) by (simp add: main_def)
  have no_w: "\<not> list_ex is_wopen (snd (main e prog argv))"
    using compile_and_emit_check_syntax(1) [OF assms(2) ev] by (simp add: m)
  have no_d: "\<not> list_ex is_dump (snd (main e prog argv))"
    using compile_and_emit_check_syntax(2) [OF assms(2) ev] by (simp add: m)
  have run: "if mrb_undef_p (mrb_load_file_cxt e f (filename a) (verbose a)) \<or>
                mrb_fixnum (mrb_load_file_cxt e f (filename a) (verbose a)) < 0
             then fst (main e prog argv) = EXIT_FAILURE \<and>
                  Printf (''Syntax OK'' @ nl) \<notin> set (snd (main e prog argv))
             else main e prog argv =
                    (EXIT_SUCCESS,
                     tr @ [Load_file f (filename a) (verbose a), Printf (''Syntax OK'' @ nl)]
                        @ cleanup a)"
    if "mrb_open_ok e" and "n \<noteq> EXIT_FAILURE" and "rfp a = Some f" for f
    using that assms(2) scan_events_kinds(6) [OF ev]
    by (simp add: m compile_and_emit_def Let_def cleanup_kinds)
  have "EXIT_SUCCESS = 0 \<and> EXIT_FAILURE \<noteq> 0"
    by (simp add: EXIT_SUCCESS_def EXIT_FAILURE_def)
  with w no_w no_d run show ?thesis
    by blast
qed

text \<open>
  The command lines \<^verbatim>\<open>mrbc -c -oout.mrb -Binit foo.rb\<close> and \<^verbatim>\<open>mrbc -c broken.rb\<close>.
\<close>

theorem check_syntax_opens_no_output_witness:
  "parse_args sample_env ''mrbc'' [''-c'', ''-oout.mrb'', ''-Binit'', ''foo.rb''] =
     Returned 0
       \<lparr>rfp = Some (Rfile ''foo.rb''), wfp = None, filename = Some ''foo.rb'',
        initname = Some ''init'', ext = ''.c'', check_syntax = True, verbose = False,
        debug_info = False\<rparr>
       [Fopen ''foo.rb'' ''r''] \<and>
   main sample_env ''mrbc'' [''-c'', ''-oout.mrb'', ''-Binit'', ''foo.rb''] =
     (0, [Fopen ''foo.rb'' ''r'', Load_file (Rfile ''foo.rb'') (Some ''foo.rb'') False,
          Printf (''Syntax OK'' @ nl), Fclose (Rfile ''foo.rb''), Mrb_close]) \<and>
   \<not> list_ex is_wopen
       (snd (main sample_env ''mrbc'' [''-c'', ''-oout.mrb'', ''-Binit'', ''foo.rb''])) \<and>
   fst (main sample_env ''mrbc'' [''-c'', ''broken.rb'']) = EXIT_FAILURE \<and>
   Printf (''Syntax OK'' @ nl) \<notin> set (snd (main sample_env ''mrbc'' [''-c'', ''broken.rb'']))"
proof -
  let ?a = "\<lparr>rfp = Some (Rfile ''foo.rb''), wfp = None, filename = Some ''foo.rb'',
        initname = Some ''init'', ext = ''.c'', check_syntax = True, verbose = False,
        debug_info = False\<rparr>"
  have h1: "parse_args sample_env ''mrbc'' [''-c'', ''-oout.mrb'', ''-Binit'', ''foo.rb''] =
      Returned 0 ?a [Fopen ''foo.rb'' ''r'']"
    by (simp add: run_defs)
  have h2: "check_syntax ?a"
    by simp
  have h3: "mrb_open_ok sample_env \<and> (0::int) \<noteq> EXIT_FAILURE"
    by (simp add: sample_env_def EXIT_FAILURE_def)
  have h4: "rfp ?a = Some (Rfile ''foo.rb'')"
    by simp
  note t = check_syntax_opens_no_output [OF h1 h2]
  from t have a: "\<not> list_ex is_wopen
          (snd (main sample_env ''mrbc'' [''-c'', ''-oout.mrb'', ''-Binit'', ''foo.rb'']))"
    by blast
  from t h3 h4
  have b: "if mrb_undef_p (mrb_load_file_cxt sample_env (Rfile ''foo.rb'') (filename ?a) (verbose ?a)) \<or>
            mrb_fixnum (mrb_load_file_cxt sample_env (Rfile ''foo.rb'') (filename ?a) (verbose ?a)) < 0
         then fst (main sample_env ''mrbc'' [''-c'', ''-oout.mrb'', ''-Binit'', ''foo.rb'']) = EXIT_FAILURE \<and>
              Printf (''Syntax OK'' @ nl) \<notin>
                set (snd (main sample_env ''mrbc'' [''-c'', ''-oout.mrb'', ''-Binit'', ''foo.rb'']))
         else main sample_env ''mrbc'' [''-c'', ''-oout.mrb'', ''-Binit'', ''foo.rb''] =
                (EXIT_SUCCESS,
                 [Fopen ''foo.rb'' ''r''] @
                 [Load_file (Rfile ''foo.rb'') (filename ?a) (verbose ?a),
                  Printf (''Syntax OK'' @ nl)] @ cleanup ?a)"
    by blast
  have c: "\<not> (mrb_undef_p (mrb_load_file_cxt sample_env (Rfile ''foo.rb'') (filename ?a) (verbose ?a)) \<or>
            mrb_fixnum (mrb_load_file_cxt sample_env (Rfile ''foo.rb'') (filename ?a) (verbose ?a)) < 0)"
    by (simp add: sample_env_def)
  from b c
  have "main sample_env ''mrbc'' [''-c'', ''-oout.mrb'', ''-Binit'', ''foo.rb''] =
                (EXIT_SUCCESS,
                 [Fopen ''foo.rb'' ''r''] @
                 [Load_file (Rfile ''foo.rb'') (filename ?a) (verbose ?a),
                  Printf (''Syntax OK'' @ nl)] @ cleanup ?a)"
    by (simp only: if_False)
  then have ok: "main sample_env ''mrbc'' [''-c'', ''-oout.mrb'', ''-Binit'', ''foo.rb''] =
     (0, [Fopen ''foo.rb'' ''r'', Load_file (Rfile ''foo.rb'') (Some ''foo.rb'') False,
          Printf (''Syntax OK'' @ nl), Fclose (Rfile ''foo.rb''), Mrb_close])"
    by (simp add: cleanup_def EXIT_SUCCESS_def)
  let ?b = "\<lparr>rfp = Some (Rfile ''broken.rb''), wfp = None, filename = Some ''broken.rb'',
        initname = None, ext = ''.mrb'', check_syntax = True, verbose = False,
        debug_info = False\<rparr>"
  have k1: "parse_args sample_env ''mrbc'' [''-c'', ''broken.rb''] =
      Returned 0 ?b [Fopen ''broken.rb'' ''r'']"
    by (simp add: run_defs)
  have k2: "check_syntax ?b" and k4: "rfp ?b = Some (Rfile ''broken.rb'')"
    by simp_all
  from check_syntax_opens_no_output [OF k1 k2] h3 k4
  have "if mrb_undef_p (mrb_load_file_cxt sample_env (Rfile ''broken.rb'') (filename ?b) (verbose ?b)) \<or>
            mrb_fixnum (mrb_load_file_cxt sample_env (Rfile ''broken.rb'') (filename ?b) (verbose ?b)) < 0
         then fst (main sample_env ''mrbc'' [''-c'', ''broken.rb'']) = EXIT_FAILURE \<and>
              Printf (''Syntax OK'' @ nl) \<notin> set (snd (main sample_env ''mrbc'' [''-c'', ''broken.rb'']))
         else main sample_env ''mrbc'' [''-c'', ''broken.rb''] =
                (EXIT_SUCCESS,
                 [Fopen ''broken.rb'' ''r''] @
                 [Load_file (Rfile ''broken.rb'') (filename ?b) (verbose ?b),
                  Printf (''Syntax OK'' @ nl)] @ cleanup ?b)"
    by blast
  moreover
  have "mrb_undef_p (mrb_load_file_cxt sample_env (Rfile ''broken.rb'') (filename ?b) (verbose ?b)) \<or>
            mrb_fixnum (mrb_load_file_cxt sample_env (Rfile ''broken.rb'') (filename ?b) (verbose ?b)) < 0"
    by (simp add: sample_env_def)
  ultimately
  have bad: "fst (main sample_env ''mrbc'' [''-c'', ''broken.rb'']) = EXIT_FAILURE \<and>
      Printf (''Syntax OK'' @ nl) \<notin> set (snd (main sample_env ''mrbc'' [''-c'', ''broken.rb'']))"
    by (simp only: if_True simp_thms)
  from h1 ok a bad show ?thesis
    by blast
qed

subsection \<open>Claim C8: the lone dash\<close>

text \<open>
  Claim C8, as the code has it.  When the loop reaches a lone \<^verbatim>\<open>-\<close> (no token before
  it has stopped the loop), the input is bound to stdin under the name \<^verbatim>\<open>-\<close>, the loop
  stops there, so that the tokens after it change nothing, and, if neither an \<^verbatim>\<open>-o\<close>
  nor a \<^verbatim>\<open>-c\<close> switch precedes it, \<^verbatim>\<open>parse_args\<close> succeeds with the output bound
  to stdout and no file opened for writing.
\<close>

theorem lone_dash_reads_stdin:
  assumes "scan e prog pre pstate0 = Next s"
  shows "scan e prog (pre @ ''-'' # rest) pstate0 =
           Break (s\<lparr>pargs := (pargs s)\<lparr>filename := Some ''-'', rfp := Some Stdin\<rparr>,
                    infile := Some ''-''\<rparr>) \<and>
         parse_args e prog (pre @ ''-'' # rest) = parse_args e prog (pre @ [''-'']) \<and>
         ((\<forall>u\<in>set pre. \<not> switch_char u (CHR ''o'')) \<and>
          (\<forall>u\<in>set pre. \<not> switch_char u (CHR ''c'')) \<longrightarrow>
            parse_args e prog (pre @ ''-'' # rest) =
              Returned EXIT_SUCCESS
                ((pargs s)\<lparr>filename := Some ''-'', rfp := Some Stdin, wfp := Some Stdout\<rparr>)
                (out s) \<and>
            \<not> list_ex is_wopen (out s))"
proof -
  let ?s = "s\<lparr>pargs := (pargs s)\<lparr>filename := Some ''-'', rfp := Some Stdin\<rparr>,
              infile := Some ''-''\<rparr>"
  have a: "scan e prog (pre @ ''-'' # rest) pstate0 = Break ?s"
    using assms by (simp add: scan_append arg_step_dash)
  have b: "parse_args e prog (pre @ ''-'' # rest) = parse_args e prog (pre @ [''-''])"
    by (intro parse_args_cong scan_stops_at_dash)
  have c: "parse_args e prog (pre @ ''-'' # rest) =
             Returned EXIT_SUCCESS
               ((pargs s)\<lparr>filename := Some ''-'', rfp := Some Stdin, wfp := Some Stdout\<rparr>)
               (out s)"
    if "\<forall>u\<in>set pre. \<not> switch_char u (CHR ''o'')"
      and "\<forall>u\<in>set pre. \<not> switch_char u (CHR ''c'')"
  proof -
    from scan_flags [OF assms] that
    have "outfile s = None" and "\<not> check_syntax (pargs s)"
      by (simp_all add: pstate0_def args_zero_def)
    moreover have "result s = EXIT_SUCCESS"
      using assms by (rule scan_result)
    ultimately have "at_exit (resolve e prog ?s) =
        Returned EXIT_SUCCESS
          ((pargs s)\<lparr>filename := Some ''-'', rfp := Some Stdin, wfp := Some Stdout\<rparr>) (out s)"
      by (simp add: resolve_def at_exit_def Let_def)
    with a show ?thesis
      by (simp add: parse_args_def)
  qed
  have "list_all scan_event (out s)"
    using scan_events [of e prog pre] assms by simp
  then have d: "\<not> list_ex is_wopen (out s)"
    by (simp add: scan_events_kinds)
  from a b c d show ?thesis
    by blast
qed

text \<open>The command line \<^verbatim>\<open>mrbc -g - -ob.mrb foo.rb\<close>.\<close>

theorem lone_dash_reads_stdin_witness:
  "scan sample_env ''mrbc'' [''-g''] pstate0 =
     Next (pstate0\<lparr>pargs := (pargs pstate0)\<lparr>debug_info := True\<rparr>\<rparr>) \<and>
   \<not> switch_char ''-g'' (CHR ''o'') \<and> \<not> switch_char ''-g'' (CHR ''c'') \<and>
   parse_args sample_env ''mrbc'' ([''-g''] @ ''-'' # [''-ob.mrb'', ''foo.rb'']) =
     Returned EXIT_SUCCESS
       ((pargs pstate0)\<lparr>debug_info := True, filename := Some ''-'', rfp := Some Stdin,
          wfp := Some Stdout\<rparr>) []"
proof -
  have h1: "scan sample_env ''mrbc'' [''-g''] pstate0 =
      Next (pstate0\<lparr>pargs := (pargs pstate0)\<lparr>debug_info := True\<rparr>\<rparr>)"
    by (simp add: arg_step_def)
  have h2: "\<not> switch_char ''-g'' (CHR ''o'')" "\<not> switch_char ''-g'' (CHR ''c'')"
    by (simp_all add: switch_char_def)
  have h3: "(\<forall>u\<in>set [''-g'']. \<not> switch_char u (CHR ''o'')) \<and>
            (\<forall>u\<in>set [''-g'']. \<not> switch_char u (CHR ''c''))"
    using h2 by simp
  from lone_dash_reads_stdin [OF h1, of "[''-ob.mrb'', ''foo.rb'']"] h3
  have "parse_args sample_env ''mrbc'' ([''-g''] @ ''-'' # [''-ob.mrb'', ''foo.rb'']) =
      Returned EXIT_SUCCESS
        ((pargs (pstate0\<lparr>pargs := (pargs pstate0)\<lparr>debug_info := True\<rparr>\<rparr>))
           \<lparr>filename := Some ''-'', rfp := Some Stdin, wfp := Some Stdout\<rparr>)
        (out (pstate0\<lparr>pargs := (pargs pstate0)\<lparr>debug_info := True\<rparr>\<rparr>))"
    by blast
  then show ?thesis
    using h1 h2 by (simp add: pstate0_def)
qed

text \<open>
  Claim C8 as stated fails: after \<^verbatim>\<open>-B\<close> without a name the loop has failed before it
  reads the \<^verbatim>\<open>-\<close>, no input is bound and nothing is compiled; after \<^verbatim>\<open>--version\<close> the
  process has exited.
\<close>

theorem lone_dash_counterexample:
  "parse_args sample_env ''mrbc'' [''-B'', ''-''] =
     Returned 1
       \<lparr>rfp = None, wfp = None, filename = None, initname = Some [], ext = ''.c'',
        check_syntax = False, verbose = False, debug_info = False\<rparr>
       [Printf (''mrbc: Function name is not specified.'' @ nl)] \<and>
   \<not> list_ex is_load (snd (main sample_env ''mrbc'' [''-B'', ''-''])) \<and>
   main sample_env ''mrbc'' [''--version'', ''-''] = (0, [Show_version])"
  by (simp add: run_defs usage_def usage_msg_def)

subsection \<open>Claim C9: a second output switch\<close>

text \<open>
  Claim C9, as the code has it.  When the loop reaches an \<^verbatim>\<open>-o\<close> switch after it has
  read another one (no token before it has stopped the loop), \<^verbatim>\<open>parse_args\<close> prints
  the message ``An output file is already specified'' with the first name and returns
  \<^verbatim>\<open>EXIT_FAILURE\<close>; no output stream is opened, neither there nor in the rest of
  \<^verbatim>\<open>main\<close>, which exits with \<^verbatim>\<open>EXIT_FAILURE\<close>.
\<close>

theorem second_output_switch_fails:
  assumes "scan e prog pre pstate0 = Next s"
    and "\<exists>u\<in>set pre. switch_char u (CHR ''o'')"
    and "switch_char t (CHR ''o'')"
  shows "(\<exists>f. outfile s = Some f \<and>
            parse_args e prog (pre @ t # rest) =
              Returned EXIT_FAILURE (pargs s)
                (out s @
                 [Printf (prog @ '': An output file is already specified. ('' @ f @ '')'' @ nl)])) \<and>
         wfp (pargs s) = None \<and>
         \<not> list_ex is_wopen (events (parse_args e prog (pre @ t # rest))) \<and>
         \<not> list_ex is_wopen (snd (main e prog (pre @ t # rest))) \<and>
         fst (main e prog (pre @ t # rest)) = EXIT_FAILURE \<and> EXIT_FAILURE \<noteq> 0"
proof -
  from scan_flags [OF assms(1)] assms(2) obtain f where f: "outfile s = Some f"
    by auto
  let ?tr = "out s @ [Printf (prog @ '': An output file is already specified. ('' @ f @ '')'' @ nl)]"
  have p: "parse_args e prog (pre @ t # rest) = Returned EXIT_FAILURE (pargs s) ?tr"
    using f assms(3)
    by (simp add: parse_args_after_prefix [OF assms(1)] arg_step_o at_exit_def)
  have "list_all scan_event (out s)"
    using scan_events [of e prog pre] assms(1) by simp
  then have w: "\<not> list_ex is_wopen ?tr"
    by (simp add: scan_events_kinds)
  have "wfp (pargs s) = None"
    using scan_wfp [of e prog pre] assms(1) by simp
  with f p w main_trace_failure [OF p] show ?thesis
    by (simp add: EXIT_FAILURE_def)
qed

text \<open>The command line \<^verbatim>\<open>mrbc -oa.mrb -ob.mrb foo.rb\<close>.\<close>

theorem second_output_switch_fails_witness:
  "scan sample_env ''mrbc'' [''-oa.mrb'']  pstate0 = Next (pstate0\<lparr>outfile := Some ''a.mrb''\<rparr>) \<and>
   switch_char ''-oa.mrb'' (CHR ''o'') \<and> switch_char ''-ob.mrb'' (CHR ''o'') \<and>
   parse_args sample_env ''mrbc'' ([''-oa.mrb''] @ ''-ob.mrb'' # [''foo.rb'']) =
     Returned EXIT_FAILURE (pargs pstate0)
       [Printf (''mrbc'' @ '': An output file is already specified. ('' @ ''a.mrb'' @ '')'' @ nl)] \<and>
   \<not> list_ex is_wopen (snd (main sample_env ''mrbc'' ([''-oa.mrb''] @ ''-ob.mrb'' # [''foo.rb'']))) \<and>
   fst (main sample_env ''mrbc'' ([''-oa.mrb''] @ ''-ob.mrb'' # [''foo.rb''])) = EXIT_FAILURE"
proof -
  have h1: "scan sample_env ''mrbc'' [''-oa.mrb''] pstate0 = Next (pstate0\<lparr>outfile := Some ''a.mrb''\<rparr>)"
    by (simp add: arg_step_def get_outfilename_def pstate0_def)
  have h2: "switch_char ''-oa.mrb'' (CHR ''o'')" "switch_char ''-ob.mrb'' (CHR ''o'')"
    by (simp_all add: switch_char_def is_switch_def)
  have h3: "\<exists>u\<in>set [''-oa.mrb'']. switch_char u (CHR ''o'')"
    using h2 by simp
  show ?thesis
    using h1 h2 second_output_switch_fails [OF h1 h3 h2(2), of "[''foo.rb'']"]
    by (simp add: pstate0_def)
qed

text \<open>
  Claim C9 as stated fails: a lone \<^verbatim>\<open>-\<close> between two \<^verbatim>\<open>-o\<close> switches stops the loop
  before the second one is read; the run succeeds and opens the first output file.
\<close>

theorem second_output_switch_counterexample:
  "parse_args sample_env ''mrbc'' [''-oa.mrb'', ''-'', ''-ob.mrb''] =
     Returned 0
       \<lparr>rfp = Some Stdin, wfp = Some (Wfile ''a.mrb''), filename = Some ''-'',
        initname = None, ext = ''.mrb'', check_syntax = False, verbose = False,
        debug_info = False\<rparr>
       [Fopen ''a.mrb'' ''wb''] \<and>
   fst (main sample_env ''mrbc'' [''-oa.mrb'', ''-'', ''-ob.mrb'']) = 0 \<and>
   list_ex is_wopen (snd (main sample_env ''mrbc'' [''-oa.mrb'', ''-'', ''-ob.mrb'']))"
  by (simp add: run_defs)

subsection \<open>Claim C10: switches without a case\<close>

text \<open>
  Claim C10.  A token that starts with a dash, is longer than the dash alone, and whose
  switch character is none of \<^verbatim>\<open>o\<close>, \<^verbatim>\<open>B\<close>, \<^verbatim>\<open>c\<close>, \<^verbatim>\<open>v\<close>, \<^verbatim>\<open>g\<close>, \<^verbatim>\<open>-\<close>
  (such as \<^verbatim>\<open>-x\<close>) is silently ignored: the round of the loop that reads it prints
  nothing, changes nothing and goes on to the next token, so \<^verbatim>\<open>parse_args\<close> (the result
  code, the resolved structure and every message) and the whole run of \<^verbatim>\<open>main\<close> are
  the same as with the token absent, wherever the token stands.
\<close>

theorem other_switch_ignored:
  assumes "ignored_switch t"
  shows "arg_step e prog t s = Next s \<and>
         parse_args e prog (pre @ t # rest) = parse_args e prog (pre @ rest) \<and>
         main e prog (pre @ t # rest) = main e prog (pre @ rest)"
proof -
  have "parse_args e prog (pre @ t # rest) = parse_args e prog (pre @ rest)"
    using assms by (intro parse_args_cong scan_drop_ignored)
  moreover from this have "main e prog (pre @ t # rest) = main e prog (pre @ rest)"
    by (rule main_cong)
  ultimately show ?thesis
    using assms by (simp add: arg_step_ignored)
qed

text \<open>The token \<^verbatim>\<open>-x\<close> between \<^verbatim>\<open>-g\<close> and the program file.\<close>

theorem other_switch_ignored_witness:
  "ignored_switch ''-x'' \<and>
   arg_step sample_env ''mrbc'' ''-x'' pstate0 = Next pstate0 \<and>
   parse_args sample_env ''mrbc'' ([''-g''] @ ''-x'' # [''foo.rb'']) =
     parse_args sample_env ''mrbc'' ([''-g''] @ [''foo.rb'']) \<and>
   main sample_env ''mrbc'' ([''-g''] @ ''-x'' # [''foo.rb'']) =
     main sample_env ''mrbc'' ([''-g''] @ [''foo.rb''])"
proof -
  have h: "ignored_switch ''-x''"
    by (simp add: ignored_switch_def is_switch_def)
  show ?thesis
    using h other_switch_ignored [OF h, of sample_env "''mrbc''" pstate0 "[''-g'']" "[''foo.rb'']"]
    by simp
qed

end
